theory Spec2Isabelle
  imports Main "HOL-Library.Char_ord" "HOL-Library.List_Lexorder"
begin

section \<open>Toolkit values used by the thumbnail view\<close>

text \<open>
  The thumbnail view (lib/thumbnailview/thumbnailview.cpp) works on toolkit values:
  pixmaps, sizes, rectangles, model indexes, timers. Only what the code reads of them is
  modelled. A pixmap is either the null pixmap or has a width, a height and pixel
  contents (an opaque number). \<open>QSize()\<close> is the invalid size \<open>(-1, -1)\<close>.
  A C++ \<open>int\<close> has 32 bits. It is modelled as an \<open>int\<close>, and every sum, difference
  and product the code computes is wrapped to 32 bits by \<open>int32\<close>, as it wraps on
  the machine: \<open>setThumbnailSize\<close> takes any size, and the source checks none of its
  arithmetic for overflow.
\<close>

definition int32 :: "int \<Rightarrow> int" where
  "int32 x = (x + 2147483648) mod 4294967296 - 2147483648"

datatype QPixmap = NullPixmap | Pixmap int int nat

fun isNull :: "QPixmap \<Rightarrow> bool" where
  "isNull NullPixmap = True"
| "isNull (Pixmap w h d) = False"

fun pix_width :: "QPixmap \<Rightarrow> int" where
  "pix_width NullPixmap = 0"
| "pix_width (Pixmap w h d) = w"

fun pix_height :: "QPixmap \<Rightarrow> int" where
  "pix_height NullPixmap = 0"
| "pix_height (Pixmap w h d) = h"

record QSize =
  sz_width :: int
  sz_height :: int

definition QSize_invalid :: QSize where
  "QSize_invalid = \<lparr>sz_width = - 1, sz_height = - 1\<rparr>"

definition size_isValid :: "QSize \<Rightarrow> bool" where
  "size_isValid s = (sz_width s \<ge> 0 \<and> sz_height s \<ge> 0)"

definition pix_size :: "QPixmap \<Rightarrow> QSize" where
  "pix_size p = \<lparr>sz_width = pix_width p, sz_height = pix_height p\<rparr>"

text \<open>\<open>QRect\<close> stores its two corners; \<open>adjust\<close> adds the deltas to them and
  \<open>width\<close> is \<open>x2 - x1 + 1\<close>.\<close>

record QRect =
  rx1 :: int
  ry1 :: int
  rx2 :: int
  ry2 :: int

definition rect_width :: "QRect \<Rightarrow> int" where
  "rect_width r = int32 (int32 (rx2 r - rx1 r) + 1)"

definition rect_adjust :: "QRect \<Rightarrow> int \<Rightarrow> int \<Rightarrow> int \<Rightarrow> int \<Rightarrow> QRect" where
  "rect_adjust r dx1 dy1 dx2 dy2 =
     \<lparr>rx1 = int32 (rx1 r + dx1), ry1 = int32 (ry1 r + dy1),
      rx2 = int32 (rx2 r + dx2), ry2 = int32 (ry2 r + dy2)\<rparr>"

datatype AspectRatioMode = IgnoreAspectRatio | KeepAspectRatio | KeepAspectRatioByExpanding

datatype TransformationMode = FastTransformation | SmoothTransformation

text \<open>A \<open>QModelIndex\<close> is a row, a column, an internal id and a model pointer (here:
  whether it is set). It is valid when row and column are not negative and the model is
  set. A \<open>QPersistentModelIndex\<close> is modelled by the index it was made from.\<close>

record QModelIndex =
  ix_row :: int
  ix_column :: int
  ix_internalId :: int
  ix_model :: bool

definition QModelIndex_invalid :: QModelIndex where
  "QModelIndex_invalid = \<lparr>ix_row = - 1, ix_column = - 1, ix_internalId = 0, ix_model = False\<rparr>"

definition isValid :: "QModelIndex \<Rightarrow> bool" where
  "isValid i = (ix_row i \<ge> 0 \<and> ix_column i \<ge> 0 \<and> ix_model i)"

definition createIndex :: "int \<Rightarrow> int \<Rightarrow> int \<Rightarrow> QModelIndex" where
  "createIndex row col ident = \<lparr>ix_row = row, ix_column = col, ix_internalId = ident, ix_model = True\<rparr>"

type_synonym KUrl = string
type_synonym KDateTime = int

datatype Kind = KIND_UNKNOWN | KIND_DIR | KIND_ARCHIVE | KIND_RASTER_IMAGE | KIND_SVG_IMAGE | KIND_VIDEO

text \<open>A \<open>KFileItem\<close> as the view reads it: whether it is null, its url, the kind
  \<open>MimeTypeUtils::fileItemKind\<close> gives it, its modification time and its icon at a
  given size (\<open>item.pixmap(size)\<close>).\<close>

record KFileItem =
  fi_isNull :: bool
  fi_url :: KUrl
  fi_kind :: Kind
  fi_time :: KDateTime
  fi_pixmap :: "int \<Rightarrow> QPixmap"

definition KFileItem_null :: KFileItem where
  "KFileItem_null = \<lparr>fi_isNull = True, fi_url = [], fi_kind = KIND_UNKNOWN, fi_time = 0,
     fi_pixmap = (\<lambda>_. NullPixmap)\<rparr>"

datatype ThumbnailGroup = Normal | Large

text \<open>What the view calls from outside the files modelled here: the toolkit's pixmap
  scaling (whose transformation mode defaults to the fast one) and rectangle
  intersection, the thumbnail group sizes, the icon loader and the clock. They are
  parameters of the model.\<close>

record toolkit =
  scaled :: "QPixmap \<Rightarrow> int \<Rightarrow> int \<Rightarrow> AspectRatioMode \<Rightarrow> TransformationMode \<Rightarrow> QPixmap"
  intersects :: "QRect \<Rightarrow> QRect \<Rightarrow> bool"
  pixelSize :: "ThumbnailGroup \<Rightarrow> int"
  fromPixelSize :: "int \<Rightarrow> ThumbnailGroup"
  DesktopIcon :: "string \<Rightarrow> int \<Rightarrow> QPixmap"
  currentLocalDateTime :: KDateTime

record AbstractDocumentInfoProvider =
  isModified :: "KUrl \<Rightarrow> bool"
  thumbnailForDocument :: "KUrl \<Rightarrow> ThumbnailGroup \<Rightarrow> QPixmap \<times> QSize"

section \<open>The thumbnail view\<close>

record Thumbnail =
  mIndex :: QModelIndex
  mModificationTime :: KDateTime
  mGroupPix :: QPixmap
  mAdjustedPix :: QPixmap
  mFullSize :: QSize
  mRealFullSize :: QSize
  mRough :: bool
  mWaitingForThumbnail :: bool

definition new_Thumbnail :: "QModelIndex \<Rightarrow> KDateTime \<Rightarrow> Thumbnail" where
  "new_Thumbnail index mtime =
     \<lparr>mIndex = index, mModificationTime = mtime, mGroupPix = NullPixmap,
      mAdjustedPix = NullPixmap, mFullSize = QSize_invalid, mRealFullSize = QSize_invalid,
      mRough = True, mWaitingForThumbnail = True\<rparr>"

definition initAsIcon :: "toolkit \<Rightarrow> Thumbnail \<Rightarrow> QPixmap \<Rightarrow> Thumbnail" where
  "initAsIcon tk t pix =
     (let largeGroupSize = pixelSize tk Large
      in t\<lparr>mGroupPix := pix,
           mFullSize := \<lparr>sz_width = largeGroupSize, sz_height = largeGroupSize\<rparr>\<rparr>)"

definition isGroupPixAdaptedForSize :: "Thumbnail \<Rightarrow> int \<Rightarrow> bool" where
  "isGroupPixAdaptedForSize t sz =
     (if mWaitingForThumbnail t then False
      else if isNull (mGroupPix t) then False
      else let groupSize = max (pix_width (mGroupPix t)) (pix_height (mGroupPix t))
           in if groupSize \<ge> sz then True
              else groupSize = max (sz_width (mFullSize t)) (sz_height (mFullSize t)))"

text \<open>The load job (\<open>ThumbnailLoadJob\<close>, whose code is not modelled) is known by what the view
  hands it: its thumbnail group and the items given to its constructor and to
  \<open>appendItem\<close>, in order. The \<open>QPointer\<close> to it is \<open>None\<close> when no job exists.\<close>

record ThumbnailLoadJob =
  job_group :: ThumbnailGroup
  job_items :: "KFileItem list"

datatype TimeLineState = NotRunning | Paused | Running

text \<open>The private data of the view, with the state of the base class that the code
  reads: whether the widget is visible, its model (the file item of each row), whether
  the list wraps, the viewport rectangle and the rectangle of each row. A single-shot
  timer is \<open>None\<close> when inactive and \<open>Some msec\<close> when started. The calls to
  \<open>update\<close>, which only ask for a repaint, and the log messages are not modelled.\<close>

record ThumbnailView =
  mThumbnailSize :: int
  mDocumentInfoProvider :: "AbstractDocumentInfoProvider option"
  mThumbnailForUrl :: "KUrl \<rightharpoonup> Thumbnail"
  mScheduledThumbnailGenerationTimer :: "int option"
  mSmoothThumbnailQueue :: "KUrl list"
  mSmoothThumbnailTimer :: "int option"
  mWaitingThumbnail :: QPixmap
  mThumbnailLoadJob :: "ThumbnailLoadJob option"
  mBusyIndexSet :: "QModelIndex set"
  mBusyAnimationTimeLine :: TimeLineState
  view_isVisible :: bool
  view_model :: "KFileItem list option"
  view_isWrapping :: bool
  viewport_rect :: QRect
  visualRect :: "QModelIndex \<Rightarrow> QRect"

definition SMOOTH_DELAY :: int where
  "SMOOTH_DELAY = 500"

definition model_index :: "int \<Rightarrow> int \<Rightarrow> QModelIndex" where
  "model_index row col = createIndex row col 0"

text \<open>\<open>fileItemForIndex\<close>: the null item for an invalid index, otherwise the file item
  the model holds for the index (the null item when it holds none).\<close>

definition fileItemForIndex :: "ThumbnailView \<Rightarrow> QModelIndex \<Rightarrow> KFileItem" where
  "fileItemForIndex v index =
     (if \<not> isValid index then KFileItem_null
      else case view_model v of
             None \<Rightarrow> KFileItem_null
           | Some rows \<Rightarrow>
               if nat (ix_row index) < length rows then rows ! nat (ix_row index)
               else KFileItem_null)"

definition roughAdjustThumbnail :: "toolkit \<Rightarrow> int \<Rightarrow> Thumbnail \<Rightarrow> Thumbnail" where
  "roughAdjustThumbnail tk thumbnailSize thumbnail =
     (let groupSize = max (pix_width (mGroupPix thumbnail)) (pix_height (mGroupPix thumbnail));
          fullSize = max (sz_width (mFullSize thumbnail)) (sz_height (mFullSize thumbnail))
      in if fullSize = groupSize \<and> groupSize \<le> thumbnailSize
         then thumbnail\<lparr>mAdjustedPix := mGroupPix thumbnail, mRough := False\<rparr>
         else thumbnail\<lparr>mAdjustedPix :=
                           scaled tk (mGroupPix thumbnail) thumbnailSize thumbnailSize
                             KeepAspectRatio FastTransformation,
                         mRough := True\<rparr>)"

definition setThumbnail :: "toolkit \<Rightarrow> ThumbnailView \<Rightarrow> KFileItem \<Rightarrow> QPixmap \<Rightarrow> QSize \<Rightarrow> ThumbnailView" where
  "setThumbnail tk v item pixmap sz =
     (case mThumbnailForUrl v (fi_url item) of
        None \<Rightarrow> v
      | Some thumbnail \<Rightarrow>
          (let largeGroupSize = pixelSize tk Large
           in v\<lparr>mThumbnailForUrl := (mThumbnailForUrl v)(fi_url item \<mapsto>
                  thumbnail\<lparr>mGroupPix := pixmap,
                            mAdjustedPix := NullPixmap,
                            mFullSize := (if size_isValid sz then sz
                                          else \<lparr>sz_width = largeGroupSize, sz_height = largeGroupSize\<rparr>),
                            mRealFullSize := sz,
                            mWaitingForThumbnail := False\<rparr>)\<rparr>))"

definition setBrokenThumbnail :: "toolkit \<Rightarrow> ThumbnailView \<Rightarrow> KFileItem \<Rightarrow> ThumbnailView" where
  "setBrokenThumbnail tk v item =
     (case mThumbnailForUrl v (fi_url item) of
        None \<Rightarrow> v
      | Some thumbnail \<Rightarrow>
          (let kind = fi_kind item
           in if kind = KIND_VIDEO then
                (let group = fromPixelSize tk (mThumbnailSize v);
                     pix = fi_pixmap item (pixelSize tk group)
                 in v\<lparr>mThumbnailForUrl := (mThumbnailForUrl v)(fi_url item \<mapsto>
                        initAsIcon tk thumbnail pix)\<rparr>)
              else if kind = KIND_DIR then
                v\<lparr>mThumbnailForUrl := (mThumbnailForUrl v)(fi_url item \<mapsto>
                     thumbnail\<lparr>mWaitingForThumbnail := False\<rparr>)\<rparr>
              else
                (let t1 = initAsIcon tk thumbnail (DesktopIcon tk ''image-missing'' 48)
                 in v\<lparr>mThumbnailForUrl := (mThumbnailForUrl v)(fi_url item \<mapsto>
                        t1\<lparr>mFullSize := pix_size (mGroupPix t1)\<rparr>)\<rparr>)))"

text \<open>\<open>thumbnailForIndex(index, fullSize)\<close> returns the pixmap, what the caller's
  \<open>fullSize\<close> holds afterwards (\<open>None\<close> is the null pointer, which is never written)
  and the view.\<close>

definition thumbnailForIndex ::
  "toolkit \<Rightarrow> ThumbnailView \<Rightarrow> QModelIndex \<Rightarrow> QSize option \<Rightarrow> QPixmap \<times> QSize option \<times> ThumbnailView" where
  "thumbnailForIndex tk v index fullSize =
     (let item = fileItemForIndex v index
      in if fi_isNull item then (NullPixmap, map_option (\<lambda>_. QSize_invalid) fullSize, v)
         else
           (let url = fi_url item;
                t0 = (case mThumbnailForUrl v url of
                        None \<Rightarrow> new_Thumbnail index (fi_time item)
                      | Some t \<Rightarrow> t);
                kind = fi_kind item;
                t1 = (if kind = KIND_ARCHIVE \<or> kind = KIND_DIR then
                        (let groupSize = pixelSize tk (fromPixelSize tk (mThumbnailSize v))
                         in if isNull (mGroupPix t0) \<or> pix_width (mGroupPix t0) < groupSize
                            then (initAsIcon tk t0 (fi_pixmap item groupSize))
                                   \<lparr>mWaitingForThumbnail := (kind \<noteq> KIND_ARCHIVE)\<rparr>
                            else t0)
                      else t0)
            in if isNull (mGroupPix t1)
               then (mWaitingThumbnail v, map_option (\<lambda>_. QSize_invalid) fullSize,
                     v\<lparr>mThumbnailForUrl := (mThumbnailForUrl v)(url \<mapsto> t1)\<rparr>)
               else
                 (let t2 = (if isNull (mAdjustedPix t1)
                            then roughAdjustThumbnail tk (mThumbnailSize v) t1 else t1);
                      enqueue = (mRough t2 \<and> url \<notin> set (mSmoothThumbnailQueue v))
                  in (mAdjustedPix t2, map_option (\<lambda>_. mRealFullSize t2) fullSize,
                      v\<lparr>mThumbnailForUrl := (mThumbnailForUrl v)(url \<mapsto> t2),
                        mSmoothThumbnailQueue :=
                          (if enqueue then mSmoothThumbnailQueue v @ [url]
                           else mSmoothThumbnailQueue v),
                        mSmoothThumbnailTimer :=
                          (if enqueue \<and> mSmoothThumbnailTimer v = None then Some SMOOTH_DELAY
                           else mSmoothThumbnailTimer v)\<rparr>))))"

definition smoothNextThumbnail :: "toolkit \<Rightarrow> ThumbnailView \<Rightarrow> ThumbnailView" where
  "smoothNextThumbnail tk v =
     (case mSmoothThumbnailQueue v of
        [] \<Rightarrow> v
      | url # rest \<Rightarrow>
          if mThumbnailLoadJob v \<noteq> None then v\<lparr>mSmoothThumbnailTimer := Some SMOOTH_DELAY\<rparr>
          else
            (case mThumbnailForUrl v url of
               None \<Rightarrow> v\<lparr>mSmoothThumbnailQueue := rest\<rparr>
             | Some thumbnail \<Rightarrow>
                 v\<lparr>mSmoothThumbnailQueue := rest,
                   mThumbnailForUrl := (mThumbnailForUrl v)(url \<mapsto>
                     thumbnail\<lparr>mAdjustedPix :=
                                 scaled tk (mGroupPix thumbnail) (mThumbnailSize v) (mThumbnailSize v)
                                   KeepAspectRatio SmoothTransformation,
                               mRough := False\<rparr>),
                   mSmoothThumbnailTimer :=
                     (if rest \<noteq> [] then Some 0 else mSmoothThumbnailTimer v)\<rparr>))"

text \<open>\<open>d->mDocumentInfoProvider && d->mDocumentInfoProvider->isModified(url)\<close>: the
  provider when the test holds.\<close>

definition modifiedProvider :: "ThumbnailView \<Rightarrow> KUrl \<Rightarrow> AbstractDocumentInfoProvider option" where
  "modifiedProvider v url =
     (case mDocumentInfoProvider v of
        None \<Rightarrow> None
      | Some provider \<Rightarrow> if isModified provider url then Some provider else None)"

text \<open>\<open>updateThumbnailForModifiedDocument\<close> asserts that the provider is set; both
  callers test it first, and the model passes the provider they tested.\<close>

definition updateThumbnailForModifiedDocument ::
  "toolkit \<Rightarrow> AbstractDocumentInfoProvider \<Rightarrow> ThumbnailView \<Rightarrow> QModelIndex \<Rightarrow> ThumbnailView" where
  "updateThumbnailForModifiedDocument tk provider v index =
     (let item = fileItemForIndex v index;
          url = fi_url item;
          group = fromPixelSize tk (mThumbnailSize v);
          (pix, fullSize) = thumbnailForDocument provider url group;
          v1 = v\<lparr>mThumbnailForUrl := (mThumbnailForUrl v)(url \<mapsto>
                  new_Thumbnail index (currentLocalDateTime tk))\<rparr>
      in setThumbnail tk v1 item pix fullSize)"

definition generateThumbnailsForItems :: "toolkit \<Rightarrow> ThumbnailView \<Rightarrow> KFileItem list \<Rightarrow> ThumbnailView" where
  "generateThumbnailsForItems tk v list =
     (let group = fromPixelSize tk (mThumbnailSize v)
      in case mThumbnailLoadJob v of
           None \<Rightarrow> v\<lparr>mThumbnailLoadJob := Some \<lparr>job_group = group, job_items = list\<rparr>\<rparr>
         | Some job \<Rightarrow>
             v\<lparr>mThumbnailLoadJob :=
                 Some (job\<lparr>job_group := group, job_items := job_items job @ list\<rparr>)\<rparr>)"

text \<open>C++ integer division truncates towards zero (the only division of the code is by
  2, which cannot overflow).\<close>

definition c_div :: "int \<Rightarrow> int \<Rightarrow> int" where
  "c_div a b = sgn a * sgn b * (\<bar>a\<bar> div \<bar>b\<bar>)"

text \<open>The body of the loop of \<open>generateThumbnailsForVisibleItems\<close> for one row: the
  list of items collected so far and the view, before and after.\<close>

definition visibleItems_row ::
  "toolkit \<Rightarrow> QRect \<Rightarrow> KFileItem list \<times> ThumbnailView \<Rightarrow> nat \<Rightarrow> KFileItem list \<times> ThumbnailView" where
  "visibleItems_row tk visibleRect acc row =
     (let (list, v) = acc;
          index = model_index (int row) 0;
          item = fileItemForIndex v index;
          url = fi_url item;
          rect = visualRect v index
      in if \<not> intersects tk visibleRect rect then (list, v)
         else if fi_kind item = KIND_ARCHIVE then (list, v)
         else
           (case modifiedProvider v url of
              Some provider \<Rightarrow> (list, updateThumbnailForModifiedDocument tk provider v index)
            | None \<Rightarrow>
                (case mThumbnailForUrl v url of
                   Some t \<Rightarrow>
                     if isGroupPixAdaptedForSize t (mThumbnailSize v) then (list, v)
                     else (list @ [item], v)
                 | None \<Rightarrow>
                     (list @ [item],
                      v\<lparr>mThumbnailForUrl := (mThumbnailForUrl v)(url \<mapsto>
                          new_Thumbnail index (fi_time item))\<rparr>))))"

definition extendedVisibleRect :: "ThumbnailView \<Rightarrow> QRect" where
  "extendedVisibleRect v =
     (let visibleRect = viewport_rect v
      in if view_isWrapping v then rect_adjust visibleRect 0 0 0 (int32 (mThumbnailSize v * 2))
         else rect_adjust visibleRect 0 0 (c_div (rect_width visibleRect) 2) 0)"

text \<open>The loop runs over the rows \<open>0 ..< rowCount\<close> of the model, which the body does
  not change.\<close>

definition visibleItems_loop :: "toolkit \<Rightarrow> ThumbnailView \<Rightarrow> nat \<Rightarrow> KFileItem list \<times> ThumbnailView" where
  "visibleItems_loop tk v rowCount =
     foldl (visibleItems_row tk (extendedVisibleRect v)) ([], v) [0 ..< rowCount]"

definition generateThumbnailsForVisibleItems :: "toolkit \<Rightarrow> ThumbnailView \<Rightarrow> ThumbnailView" where
  "generateThumbnailsForVisibleItems tk v =
     (case view_model v of
        None \<Rightarrow> v
      | Some rows \<Rightarrow>
          if \<not> view_isVisible v then v
          else
            (let (list, v1) = visibleItems_loop tk v (length rows)
             in if list \<noteq> [] then generateThumbnailsForItems tk v1 list else v1))"

definition updateThumbnail :: "toolkit \<Rightarrow> ThumbnailView \<Rightarrow> QModelIndex \<Rightarrow> ThumbnailView" where
  "updateThumbnail tk v index =
     (let item = fileItemForIndex v index;
          url = fi_url item
      in case modifiedProvider v url of
           Some provider \<Rightarrow> updateThumbnailForModifiedDocument tk provider v index
         | None \<Rightarrow> generateThumbnailsForItems tk v [item])"

definition updateThumbnailBusyState :: "ThumbnailView \<Rightarrow> QModelIndex \<Rightarrow> bool \<Rightarrow> ThumbnailView" where
  "updateThumbnailBusyState v index busy =
     (if busy \<and> index \<notin> mBusyIndexSet v then
        v\<lparr>mBusyIndexSet := insert index (mBusyIndexSet v),
          mBusyAnimationTimeLine :=
            (if mBusyAnimationTimeLine v \<noteq> Running then Running
             else mBusyAnimationTimeLine v)\<rparr>
      else if \<not> busy \<and> index \<in> mBusyIndexSet v then
        (let busySet = mBusyIndexSet v - {index}
         in v\<lparr>mBusyIndexSet := busySet,
              mBusyAnimationTimeLine :=
                (if busySet = {} then NotRunning else mBusyAnimationTimeLine v)\<rparr>)
      else v)"

text \<open>A run of \<open>updateThumbnailBusyState\<close> over the provider's reports, the last
  report a list of reports holds for an index, and the relation between the busy set
  and the animation.\<close>

definition busyStateEvents :: "ThumbnailView \<Rightarrow> (QModelIndex \<times> bool) list \<Rightarrow> ThumbnailView" where
  "busyStateEvents v evs = foldl (\<lambda>v (index, busy). updateThumbnailBusyState v index busy) v evs"

definition lastReportedBusy :: "(QModelIndex \<times> bool) list \<Rightarrow> QModelIndex \<Rightarrow> bool option" where
  "lastReportedBusy evs index = map_option snd (find (\<lambda>e. fst e = index) (rev evs))"

definition busyAnimationConsistent :: "ThumbnailView \<Rightarrow> bool" where
  "busyAnimationConsistent v = ((mBusyAnimationTimeLine v = Running) = (mBusyIndexSet v \<noteq> {}))"

text \<open>The group pixmap is the full image, at or below the thumbnail size.\<close>

definition groupPixIsFullImage :: "Thumbnail \<Rightarrow> int \<Rightarrow> bool" where
  "groupPixIsFullImage t thumbnailSize =
     (max (sz_width (mFullSize t)) (sz_height (mFullSize t))
        = max (pix_width (mGroupPix t)) (pix_height (mGroupPix t))
      \<and> max (pix_width (mGroupPix t)) (pix_height (mGroupPix t)) \<le> thumbnailSize)"

text \<open>The statements about \<open>generateThumbnailsForVisibleItems\<close>, in the words of the
  specification: the cache holds an adapted group pixmap for a url; a row meets the extended
  visible rectangle; a row is one to submit (shown, no archive, not modified, no adapted
  group pixmap cached); a row is one to update from the provider (shown, no archive,
  reported modified); and the thumbnail \<open>updateThumbnailForModifiedDocument\<close> builds
  from what the provider returns. \<open>jobItems\<close> are the items handed to the load
  job so far.\<close>

definition cachedAdapted :: "ThumbnailView \<Rightarrow> KUrl \<Rightarrow> bool" where
  "cachedAdapted v url =
     (case mThumbnailForUrl v url of
        None \<Rightarrow> False
      | Some t \<Rightarrow> isGroupPixAdaptedForSize t (mThumbnailSize v))"

definition rowIsShown :: "toolkit \<Rightarrow> ThumbnailView \<Rightarrow> nat \<Rightarrow> bool" where
  "rowIsShown tk v row =
     intersects tk (extendedVisibleRect v) (visualRect v (model_index (int row) 0))"

definition rowNeedsThumbnail :: "toolkit \<Rightarrow> ThumbnailView \<Rightarrow> KFileItem list \<Rightarrow> nat \<Rightarrow> bool" where
  "rowNeedsThumbnail tk v rows row =
     (rowIsShown tk v row
      \<and> fi_kind (rows ! row) \<noteq> KIND_ARCHIVE
      \<and> modifiedProvider v (fi_url (rows ! row)) = None
      \<and> \<not> cachedAdapted v (fi_url (rows ! row)))"

definition modifiedThumbnail ::
  "toolkit \<Rightarrow> AbstractDocumentInfoProvider \<Rightarrow> QModelIndex \<Rightarrow> KUrl \<Rightarrow> int \<Rightarrow> Thumbnail" where
  "modifiedThumbnail tk provider index url thumbnailSize =
     (let (pix, fullSize) = thumbnailForDocument provider url (fromPixelSize tk thumbnailSize)
      in \<lparr>mIndex = index, mModificationTime = currentLocalDateTime tk, mGroupPix = pix,
          mAdjustedPix = NullPixmap,
          mFullSize = (if size_isValid fullSize then fullSize
                       else \<lparr>sz_width = pixelSize tk Large, sz_height = pixelSize tk Large\<rparr>),
          mRealFullSize = fullSize, mRough = True, mWaitingForThumbnail = False\<rparr>)"

definition rowIsModified ::
  "toolkit \<Rightarrow> ThumbnailView \<Rightarrow> KFileItem list \<Rightarrow> nat \<Rightarrow> AbstractDocumentInfoProvider \<Rightarrow> bool" where
  "rowIsModified tk v rows row provider =
     (rowIsShown tk v row
      \<and> fi_kind (rows ! row) \<noteq> KIND_ARCHIVE
      \<and> modifiedProvider v (fi_url (rows ! row)) = Some provider)"

definition jobItems :: "ThumbnailView \<Rightarrow> KFileItem list" where
  "jobItems v = (case mThumbnailLoadJob v of None \<Rightarrow> [] | Some job \<Rightarrow> job_items job)"

text \<open>The invariant of the loop after the rows below \<open>k\<close>: only the cache has
  changed; the collected items are the rows to submit; for urls not reported modified
  the cache is adapted exactly where it was at the start; every collected item is in the
  cache; and every row to update has the provider's thumbnail in the cache.\<close>

definition sameButCache :: "ThumbnailView \<Rightarrow> ThumbnailView \<Rightarrow> bool" where
  "sameButCache v w = (w = v\<lparr>mThumbnailForUrl := mThumbnailForUrl w\<rparr>)"

definition visibleItems_inv ::
  "toolkit \<Rightarrow> ThumbnailView \<Rightarrow> KFileItem list \<Rightarrow> nat \<Rightarrow> KFileItem list \<times> ThumbnailView \<Rightarrow> bool" where
  "visibleItems_inv tk v rows k acc =
     (sameButCache v (snd acc)
      \<and> fst acc = map (\<lambda>r. rows ! r) (filter (rowNeedsThumbnail tk v rows) [0 ..< k])
      \<and> (\<forall>u. modifiedProvider v u = None \<longrightarrow> cachedAdapted (snd acc) u = cachedAdapted v u)
      \<and> (\<forall>item \<in> set (fst acc). fi_url item \<in> dom (mThumbnailForUrl (snd acc)))
      \<and> (\<forall>r < k. \<forall>p. rowIsModified tk v rows r p \<longrightarrow>
            (\<exists>r' < k. fi_url (rows ! r') = fi_url (rows ! r)
               \<and> mThumbnailForUrl (snd acc) (fi_url (rows ! r))
                   = Some (modifiedThumbnail tk p (model_index (int r') 0) (fi_url (rows ! r))
                            (mThumbnailSize v)))))"

text \<open>The thumbnail \<open>thumbnailForIndex\<close> works on once it has found or created the
  cache entry and, for a folder or an archive whose group pixmap is null or narrower
  than the group size, has taken the item's icon as group pixmap. \<open>smoothSteps\<close> is a
  number of calls of \<open>smoothNextThumbnail\<close> in a row.\<close>

definition thumbnailWithIcon :: "toolkit \<Rightarrow> ThumbnailView \<Rightarrow> QModelIndex \<Rightarrow> Thumbnail" where
  "thumbnailWithIcon tk v index =
     (let item = fileItemForIndex v index;
          t0 = (case mThumbnailForUrl v (fi_url item) of
                  None \<Rightarrow> new_Thumbnail index (fi_time item)
                | Some t \<Rightarrow> t);
          kind = fi_kind item
      in if kind = KIND_ARCHIVE \<or> kind = KIND_DIR then
           (let groupSize = pixelSize tk (fromPixelSize tk (mThumbnailSize v))
            in if isNull (mGroupPix t0) \<or> pix_width (mGroupPix t0) < groupSize
               then (initAsIcon tk t0 (fi_pixmap item groupSize))
                      \<lparr>mWaitingForThumbnail := (kind \<noteq> KIND_ARCHIVE)\<rparr>
               else t0)
         else t0)"

definition smoothSteps :: "toolkit \<Rightarrow> nat \<Rightarrow> ThumbnailView \<Rightarrow> ThumbnailView" where
  "smoothSteps tk n v = ((smoothNextThumbnail tk) ^^ n) v"

section \<open>The tag model\<close>

text \<open>lib/semanticinfo/tagmodel.cpp. A \<open>QString\<close> is a \<open>string\<close> in its
  lexicographic order, the order of \<open>QString::compare\<close>. The model is the list of its
  rows: the item's text and the tag it holds under \<open>TagRole\<close>. The back end gives its
  tag set in the order \<open>Q_FOREACH\<close> visits it. \<open>sort(0)\<close> sorts the rows by their
  text, ascending and stable.\<close>

type_synonym QString = string
type_synonym SemanticInfoTag = QString

definition QString_compare :: "QString \<Rightarrow> QString \<Rightarrow> int" where
  "QString_compare a b = (if a < b then - 1 else if a = b then 0 else 1)"

record AbstractSemanticInfoBackEnd =
  allTags :: "SemanticInfoTag list"
  labelForTag :: "SemanticInfoTag \<Rightarrow> QString"

type_synonym TagModel = "(QString \<times> SemanticInfoTag) list"

definition appendRow :: "'a list \<Rightarrow> 'a \<Rightarrow> 'a list" where
  "appendRow rows item = rows @ [item]"

definition insertRow :: "'a list \<Rightarrow> nat \<Rightarrow> 'a \<Rightarrow> 'a list" where
  "insertRow rows row item = take row rows @ item # drop row rows"

definition TagModel_refresh :: "AbstractSemanticInfoBackEnd \<Rightarrow> TagModel" where
  "TagModel_refresh backEnd =
     sort_key fst
       (foldl (\<lambda>rows tag. appendRow rows (labelForTag backEnd tag, tag)) [] (allTags backEnd))"

function slotTagAdded_loop :: "TagModel \<Rightarrow> QString \<Rightarrow> nat \<Rightarrow> nat" where
  "slotTagAdded_loop rows label row =
     (if row < length rows
      then (if QString_compare (fst (rows ! row)) label > 0 then row
            else slotTagAdded_loop rows label (Suc row))
      else row)"
  by pat_completeness auto
termination
  by (relation "measure (\<lambda>(rows, label, row). length rows - row)") auto

definition slotTagAdded :: "TagModel \<Rightarrow> SemanticInfoTag \<Rightarrow> QString \<Rightarrow> TagModel" where
  "slotTagAdded rows tag label = insertRow rows (slotTagAdded_loop rows label 0) (label, tag)"

definition tagAddedEvents :: "TagModel \<Rightarrow> (SemanticInfoTag \<times> QString) list \<Rightarrow> TagModel" where
  "tagAddedEvents rows evs = foldl (\<lambda>rows (tag, label). slotTagAdded rows tag label) rows evs"

section \<open>The image meta info model\<close>

text \<open>lib/imagemetainfomodel.cpp. The model is its vector of groups, each a label
  and a list of entries. The index of a group has the internal id \<open>NoGroup\<close>, the
  index of an entry has the row of its group. \<open>index\<close> and \<open>rowCount\<close> read the
  vector at the parent's row and give \<open>None\<close> when that is out of range.\<close>

definition NoGroup :: int where
  "NoGroup = - 1"

record Entry =
  mKey :: QString
  mLabel :: QString
  mValue :: QString

record MetaInfoGroup =
  mList :: "Entry list"
  mGroupLabel :: QString

definition group_size :: "MetaInfoGroup \<Rightarrow> int" where
  "group_size g = int (length (mList g))"

text \<open>\<open>QVector::operator[]\<close> asserts that the position is in range: \<open>None\<close>
  outside it.\<close>

definition vector_at :: "'a list \<Rightarrow> int \<Rightarrow> 'a option" where
  "vector_at xs i = (if 0 \<le> i \<and> i < int (length xs) then Some (xs ! nat i) else None)"

definition ImageMetaInfoModel_index ::
  "MetaInfoGroup list \<Rightarrow> int \<Rightarrow> int \<Rightarrow> QModelIndex \<Rightarrow> QModelIndex option" where
  "ImageMetaInfoModel_index mMetaInfoGroupVector row col parent =
     (if \<not> isValid parent then
        (if col > 0 then Some QModelIndex_invalid
         else if row \<ge> int (length mMetaInfoGroupVector) then Some QModelIndex_invalid
         else Some (createIndex row col NoGroup))
      else
        (if col > 1 then Some QModelIndex_invalid
         else
           (let group = ix_row parent
            in case vector_at mMetaInfoGroupVector group of
                 None \<Rightarrow> None
               | Some g \<Rightarrow>
                   if row \<ge> group_size g then Some QModelIndex_invalid
                   else Some (createIndex row col group))))"

definition ImageMetaInfoModel_parent :: "MetaInfoGroup list \<Rightarrow> QModelIndex \<Rightarrow> QModelIndex" where
  "ImageMetaInfoModel_parent mMetaInfoGroupVector index =
     (if \<not> isValid index then QModelIndex_invalid
      else if ix_internalId index = NoGroup then QModelIndex_invalid
      else createIndex (ix_internalId index) 0 NoGroup)"

definition ImageMetaInfoModel_rowCount :: "MetaInfoGroup list \<Rightarrow> QModelIndex \<Rightarrow> int option" where
  "ImageMetaInfoModel_rowCount mMetaInfoGroupVector parent =
     (if \<not> isValid parent then Some (int (length mMetaInfoGroupVector))
      else if ix_internalId parent = NoGroup then
        map_option group_size (vector_at mMetaInfoGroupVector (ix_row parent))
      else Some 0)"

section \<open>Concrete inputs\<close>

text \<open>A toolkit whose scaling keeps the aspect ratio as \<open>QSize::scaled\<close> does and
  tags the contents with the transformation used, a view of one raster image, and a
  back end with three tags.\<close>

definition ex_scaled :: "QPixmap \<Rightarrow> int \<Rightarrow> int \<Rightarrow> AspectRatioMode \<Rightarrow> TransformationMode \<Rightarrow> QPixmap" where
  "ex_scaled p w h a m =
     (case p of
        NullPixmap \<Rightarrow> NullPixmap
      | Pixmap pw ph d \<Rightarrow>
          (let rw = c_div (h * pw) ph;
               tag = 2 * d + (if m = SmoothTransformation then 2 else 1)
           in if rw \<le> w then Pixmap rw h tag else Pixmap w (c_div (w * ph) pw) tag))"

definition ex_toolkit :: toolkit where
  "ex_toolkit = \<lparr>scaled = ex_scaled,
     intersects = (\<lambda>a b. max (rx1 a) (rx1 b) \<le> min (rx2 a) (rx2 b) \<and> max (ry1 a) (ry1 b) \<le> min (ry2 a) (ry2 b)),
     pixelSize = (\<lambda>g. case g of Normal \<Rightarrow> 128 | Large \<Rightarrow> 256),
     fromPixelSize = (\<lambda>n. if n \<le> 128 then Normal else Large),
     DesktopIcon = (\<lambda>name n. Pixmap n n 0),
     currentLocalDateTime = 1000\<rparr>"

definition ex_index :: QModelIndex where
  "ex_index = model_index 0 0"

definition ex_item :: KFileItem where
  "ex_item = \<lparr>fi_isNull = False, fi_url = ''file:///a.png'', fi_kind = KIND_RASTER_IMAGE,
     fi_time = 10, fi_pixmap = (\<lambda>n. Pixmap n n 1)\<rparr>"

definition ex_view :: ThumbnailView where
  "ex_view = \<lparr>mThumbnailSize = 128, mDocumentInfoProvider = None,
     mThumbnailForUrl = Map.empty, mScheduledThumbnailGenerationTimer = None,
     mSmoothThumbnailQueue = [], mSmoothThumbnailTimer = None,
     mWaitingThumbnail = Pixmap 48 48 2, mThumbnailLoadJob = None,
     mBusyIndexSet = {}, mBusyAnimationTimeLine = NotRunning,
     view_isVisible = True, view_model = Some [ex_item], view_isWrapping = True,
     viewport_rect = \<lparr>rx1 = 0, ry1 = 0, rx2 = 399, ry2 = 299\<rparr>,
     visualRect = (\<lambda>i. \<lparr>rx1 = 0, ry1 = ix_row i * 150, rx2 = 149, ry2 = ix_row i * 150 + 149\<rparr>)\<rparr>"

definition ex_thumbnail :: "QPixmap \<Rightarrow> QSize \<Rightarrow> Thumbnail" where
  "ex_thumbnail pix full =
     (new_Thumbnail ex_index 10)\<lparr>mGroupPix := pix, mFullSize := full, mRealFullSize := full,
        mWaitingForThumbnail := False\<rparr>"

definition ex_backEnd :: AbstractSemanticInfoBackEnd where
  "ex_backEnd = \<lparr>allTags = [''t3'', ''t1'', ''t2''],
     labelForTag = (\<lambda>t. if t = ''t1'' then ''sea'' else if t = ''t2'' then ''city'' else ''trees'')\<rparr>"

definition ex_view_loading :: ThumbnailView where
  "ex_view_loading = ex_view\<lparr>mThumbnailLoadJob := Some \<lparr>job_group = Normal, job_items = [ex_item]\<rparr>,
               mSmoothThumbnailQueue := [fi_url ex_item]\<rparr>"

definition ex_metaInfo :: "MetaInfoGroup list" where
  "ex_metaInfo =
     [\<lparr>mList = [\<lparr>mKey = ''General.Name'', mLabel = ''Name'', mValue = ''a.png''\<rparr>,
                \<lparr>mKey = ''General.Size'', mLabel = ''File Size'', mValue = ''12 KiB''\<rparr>,
                \<lparr>mKey = ''General.Time'', mLabel = ''File Time'', mValue = ''''\<rparr>,
                \<lparr>mKey = ''General.ImageSize'', mLabel = ''Image Size'', mValue = ''100x80''\<rparr>],
       mGroupLabel = ''General''\<rparr>,
      \<lparr>mList = [\<lparr>mKey = ''Exif.Image.Make'', mLabel = ''Manufacturer'', mValue = ''ACME''\<rparr>],
       mGroupLabel = ''Exif''\<rparr>,
      \<lparr>mList = [], mGroupLabel = ''Iptc''\<rparr>]"

definition ex_view_hidden :: ThumbnailView where
  "ex_view_hidden = ex_view\<lparr>view_isVisible := False\<rparr>"

definition ex_provider :: AbstractDocumentInfoProvider where
  "ex_provider = \<lparr>isModified = (\<lambda>url. True),
     thumbnailForDocument = (\<lambda>url group. (Pixmap 128 96 9, \<lparr>sz_width = 1024, sz_height = 768\<rparr>))\<rparr>"

definition ex_archive :: KFileItem where
  "ex_archive = \<lparr>fi_isNull = False, fi_url = ''file:///b.zip'', fi_kind = KIND_ARCHIVE,
     fi_time = 20, fi_pixmap = (\<lambda>n. Pixmap n n 3)\<rparr>"

definition ex_view_modified :: ThumbnailView where
  "ex_view_modified = ex_view\<lparr>mDocumentInfoProvider := Some ex_provider\<rparr>"

definition ex_view_archive :: ThumbnailView where
  "ex_view_archive = ex_view\<lparr>mDocumentInfoProvider := Some ex_provider, view_model := Some [ex_archive]\<rparr>"

definition ex_view_small :: ThumbnailView where
  "ex_view_small = ex_view\<lparr>mThumbnailForUrl :=
     [fi_url ex_item \<mapsto> ex_thumbnail (Pixmap 100 80 7) \<lparr>sz_width = 100, sz_height = 80\<rparr>]\<rparr>"

definition ex_view_large :: ThumbnailView where
  "ex_view_large = ex_view\<lparr>mThumbnailForUrl :=
     [fi_url ex_item \<mapsto> ex_thumbnail (Pixmap 256 192 7) \<lparr>sz_width = 1024, sz_height = 768\<rparr>]\<rparr>"

definition ex_view_queued :: ThumbnailView where
  "ex_view_queued = ex_view_large\<lparr>mSmoothThumbnailQueue := [''file:///z.png'']\<rparr>"

definition ex_view_stale :: ThumbnailView where
  "ex_view_stale = ex_view\<lparr>mThumbnailForUrl := [fi_url ex_item \<mapsto> new_Thumbnail ex_index 10],
     mSmoothThumbnailQueue := [fi_url ex_item]\<rparr>"

section \<open>Properties of the thumbnail view\<close>

subsection \<open>The rough step\<close>

text \<open>C6: \<open>roughAdjustThumbnail\<close> marks the adjusted pixmap as not rough exactly when
  the larger side of the full size equals the larger side of the group pixmap and is at
  most the thumbnail size. Then the group pixmap is used as it is; otherwise the
  adjusted pixmap is the fast scaling of the group pixmap to the thumbnail size, keeping
  the aspect ratio, and the thumbnail is rough.\<close>

theorem roughAdjustThumbnail_final:
  "(\<not> mRough (roughAdjustThumbnail tk n t) \<longleftrightarrow> groupPixIsFullImage t n)
   \<and> (groupPixIsFullImage t n \<longrightarrow> mAdjustedPix (roughAdjustThumbnail tk n t) = mGroupPix t)
   \<and> (\<not> groupPixIsFullImage t n \<longrightarrow>
        mAdjustedPix (roughAdjustThumbnail tk n t)
          = scaled tk (mGroupPix t) n n KeepAspectRatio FastTransformation
        \<and> mRough (roughAdjustThumbnail tk n t))
   \<and> mGroupPix (roughAdjustThumbnail tk n t) = mGroupPix t
   \<and> mFullSize (roughAdjustThumbnail tk n t) = mFullSize t"
  by (simp add: roughAdjustThumbnail_def groupPixIsFullImage_def Let_def)

theorem roughAdjustThumbnail_final_witness:
  "groupPixIsFullImage (ex_thumbnail (Pixmap 100 80 7) \<lparr>sz_width = 100, sz_height = 80\<rparr>) 128
   \<and> mAdjustedPix (roughAdjustThumbnail ex_toolkit 128
        (ex_thumbnail (Pixmap 100 80 7) \<lparr>sz_width = 100, sz_height = 80\<rparr>)) = Pixmap 100 80 7
   \<and> \<not> mRough (roughAdjustThumbnail ex_toolkit 128
        (ex_thumbnail (Pixmap 100 80 7) \<lparr>sz_width = 100, sz_height = 80\<rparr>))
   \<and> \<not> groupPixIsFullImage (ex_thumbnail (Pixmap 256 192 7) \<lparr>sz_width = 1024, sz_height = 768\<rparr>) 128
   \<and> mAdjustedPix (roughAdjustThumbnail ex_toolkit 128
        (ex_thumbnail (Pixmap 256 192 7) \<lparr>sz_width = 1024, sz_height = 768\<rparr>)) = Pixmap 128 96 15
   \<and> mRough (roughAdjustThumbnail ex_toolkit 128
        (ex_thumbnail (Pixmap 256 192 7) \<lparr>sz_width = 1024, sz_height = 768\<rparr>))"
  using roughAdjustThumbnail_final [of ex_toolkit 128 "ex_thumbnail (Pixmap 100 80 7) \<lparr>sz_width = 100, sz_height = 80\<rparr>"]
        roughAdjustThumbnail_final [of ex_toolkit 128 "ex_thumbnail (Pixmap 256 192 7) \<lparr>sz_width = 1024, sz_height = 768\<rparr>"]
  by (simp add: groupPixIsFullImage_def ex_thumbnail_def new_Thumbnail_def ex_toolkit_def ex_scaled_def c_div_def Let_def)

subsection \<open>Unknown items\<close>

text \<open>C9: \<open>setThumbnail\<close> and \<open>setBrokenThumbnail\<close> leave the view, and so its
  thumbnail cache, as it is when the item's url is not in \<open>mThumbnailForUrl\<close>;
  \<open>thumbnailForIndex\<close> on an index with a null file item returns the null pixmap,
  writes the invalid size to \<open>fullSize\<close> when it is given, and leaves the view as it
  is.\<close>

theorem unknown_items_are_noops:
  "(mThumbnailForUrl v (fi_url item) = None \<longrightarrow> setThumbnail tk v item pixmap sz = v)
   \<and> (mThumbnailForUrl v (fi_url item) = None \<longrightarrow> setBrokenThumbnail tk v item = v)
   \<and> (fi_isNull (fileItemForIndex v idx) \<longrightarrow>
        thumbnailForIndex tk v idx None = (NullPixmap, None, v)
        \<and> thumbnailForIndex tk v idx (Some fullSize) = (NullPixmap, Some QSize_invalid, v))
   \<and> \<not> size_isValid QSize_invalid \<and> isNull NullPixmap"
  by (simp add: setThumbnail_def setBrokenThumbnail_def thumbnailForIndex_def Let_def
        size_isValid_def QSize_invalid_def)

theorem unknown_items_are_noops_witness:
  "mThumbnailForUrl ex_view (fi_url ex_item) = None
   \<and> setThumbnail ex_toolkit ex_view ex_item (Pixmap 100 80 7) \<lparr>sz_width = 100, sz_height = 80\<rparr> = ex_view
   \<and> setBrokenThumbnail ex_toolkit ex_view ex_item = ex_view
   \<and> fi_isNull (fileItemForIndex ex_view QModelIndex_invalid)
   \<and> fi_isNull (fileItemForIndex ex_view (model_index 5 0))
   \<and> thumbnailForIndex ex_toolkit ex_view (model_index 5 0) (Some \<lparr>sz_width = 3, sz_height = 4\<rparr>)
       = (NullPixmap, Some QSize_invalid, ex_view)"
proof -
  have a: "mThumbnailForUrl ex_view (fi_url ex_item) = None"
    by (simp add: ex_view_def)
  have b: "fi_isNull (fileItemForIndex ex_view (model_index 5 0))"
    by (simp add: fileItemForIndex_def ex_view_def model_index_def createIndex_def isValid_def
          KFileItem_null_def)
  have c: "fi_isNull (fileItemForIndex ex_view QModelIndex_invalid)"
    by (simp add: fileItemForIndex_def QModelIndex_invalid_def isValid_def KFileItem_null_def)
  from a b c
    unknown_items_are_noops [of ex_view ex_item ex_toolkit "Pixmap 100 80 7"
      "\<lparr>sz_width = 100, sz_height = 80\<rparr>" "model_index 5 0" "\<lparr>sz_width = 3, sz_height = 4\<rparr>"]
  show ?thesis by simp
qed

subsection \<open>Loading before smoothing\<close>

text \<open>C2: when a load job exists, \<open>smoothNextThumbnail\<close> changes nothing but the
  smoothing timer, which it starts again with \<open>SMOOTH_DELAY\<close> when the queue is not
  empty: no url leaves the queue and no thumbnail changes. A url leaves the queue, or a
  cached thumbnail changes (and then it is the one at the head of the queue), only when
  there is no load job.\<close>

theorem loadjob_has_priority:
  "(mThumbnailLoadJob v \<noteq> None \<longrightarrow>
      smoothNextThumbnail tk v
        = v\<lparr>mSmoothThumbnailTimer :=
              (if mSmoothThumbnailQueue v = [] then mSmoothThumbnailTimer v else Some SMOOTH_DELAY)\<rparr>)
   \<and> (mSmoothThumbnailQueue (smoothNextThumbnail tk v) \<noteq> mSmoothThumbnailQueue v
        \<longrightarrow> mThumbnailLoadJob v = None)
   \<and> (\<forall>url. mThumbnailForUrl (smoothNextThumbnail tk v) url \<noteq> mThumbnailForUrl v url
        \<longrightarrow> mThumbnailLoadJob v = None \<and> mSmoothThumbnailQueue v \<noteq> []
            \<and> url = hd (mSmoothThumbnailQueue v))"
  by (auto simp: smoothNextThumbnail_def split: list.splits option.splits)

theorem loadjob_has_priority_witness:
  "mThumbnailLoadJob ex_view_loading \<noteq> None
   \<and> smoothNextThumbnail ex_toolkit ex_view_loading
       = ex_view_loading\<lparr>mSmoothThumbnailTimer := Some 500\<rparr>
   \<and> mSmoothThumbnailQueue (smoothNextThumbnail ex_toolkit
        (ex_view\<lparr>mSmoothThumbnailQueue := [fi_url ex_item]\<rparr>))
       \<noteq> mSmoothThumbnailQueue (ex_view\<lparr>mSmoothThumbnailQueue := [fi_url ex_item]\<rparr>)
   \<and> mThumbnailLoadJob (ex_view\<lparr>mSmoothThumbnailQueue := [fi_url ex_item]\<rparr>) = None"
proof -
  have j: "mThumbnailLoadJob ex_view_loading \<noteq> None"
    by (simp add: ex_view_loading_def)
  have ne: "mSmoothThumbnailQueue ex_view_loading \<noteq> []"
    by (simp add: ex_view_loading_def)
  have q: "mSmoothThumbnailQueue (smoothNextThumbnail ex_toolkit
        (ex_view\<lparr>mSmoothThumbnailQueue := [fi_url ex_item]\<rparr>))
       \<noteq> mSmoothThumbnailQueue (ex_view\<lparr>mSmoothThumbnailQueue := [fi_url ex_item]\<rparr>)"
    by (simp add: smoothNextThumbnail_def ex_view_def)
  from loadjob_has_priority [of ex_view_loading ex_toolkit] j ne
  have a: "smoothNextThumbnail ex_toolkit ex_view_loading
       = ex_view_loading\<lparr>mSmoothThumbnailTimer := Some 500\<rparr>"
    by (simp only: SMOOTH_DELAY_def if_False simp_thms)
  from loadjob_has_priority [of "ex_view\<lparr>mSmoothThumbnailQueue := [fi_url ex_item]\<rparr>" ex_toolkit] q
  have b: "mThumbnailLoadJob (ex_view\<lparr>mSmoothThumbnailQueue := [fi_url ex_item]\<rparr>) = None"
    by blast
  from j a q b show ?thesis by blast
qed

subsection \<open>Load, rough scaling, smooth scaling\<close>

lemma thumbnailForIndex_available:
  assumes "\<not> fi_isNull (fileItemForIndex v idx)"
    and "\<not> isNull (mGroupPix (thumbnailWithIcon tk v idx))"
  shows "thumbnailForIndex tk v idx fs =
     (let url = fi_url (fileItemForIndex v idx);
          t = thumbnailWithIcon tk v idx;
          t2 = (if isNull (mAdjustedPix t) then roughAdjustThumbnail tk (mThumbnailSize v) t else t);
          enqueue = (mRough t2 \<and> url \<notin> set (mSmoothThumbnailQueue v))
      in (mAdjustedPix t2, map_option (\<lambda>_. mRealFullSize t2) fs,
          v\<lparr>mThumbnailForUrl := (mThumbnailForUrl v)(url \<mapsto> t2),
            mSmoothThumbnailQueue :=
              (if enqueue then mSmoothThumbnailQueue v @ [url] else mSmoothThumbnailQueue v),
            mSmoothThumbnailTimer :=
              (if enqueue \<and> mSmoothThumbnailTimer v = None then Some SMOOTH_DELAY
               else mSmoothThumbnailTimer v)\<rparr>))"
proof -
  have e: "thumbnailForIndex tk v idx fs =
     (let url = fi_url (fileItemForIndex v idx);
          t1 = thumbnailWithIcon tk v idx
      in if isNull (mGroupPix t1)
         then (mWaitingThumbnail v, map_option (\<lambda>_. QSize_invalid) fs,
               v\<lparr>mThumbnailForUrl := (mThumbnailForUrl v)(url \<mapsto> t1)\<rparr>)
         else
           (let t2 = (if isNull (mAdjustedPix t1)
                      then roughAdjustThumbnail tk (mThumbnailSize v) t1 else t1);
                enqueue = (mRough t2 \<and> url \<notin> set (mSmoothThumbnailQueue v))
            in (mAdjustedPix t2, map_option (\<lambda>_. mRealFullSize t2) fs,
                v\<lparr>mThumbnailForUrl := (mThumbnailForUrl v)(url \<mapsto> t2),
                  mSmoothThumbnailQueue :=
                    (if enqueue then mSmoothThumbnailQueue v @ [url]
                     else mSmoothThumbnailQueue v),
                  mSmoothThumbnailTimer :=
                    (if enqueue \<and> mSmoothThumbnailTimer v = None then Some SMOOTH_DELAY
                     else mSmoothThumbnailTimer v)\<rparr>)))"
    using assms(1) unfolding thumbnailForIndex_def thumbnailWithIcon_def Let_def by simp
  show ?thesis unfolding e using assms(2) by (simp add: Let_def)
qed

lemma roughAdjust_cases:
  "roughAdjustThumbnail tk n t =
     (if groupPixIsFullImage t n then t\<lparr>mAdjustedPix := mGroupPix t, mRough := False\<rparr>
      else t\<lparr>mAdjustedPix := scaled tk (mGroupPix t) n n KeepAspectRatio FastTransformation,
             mRough := True\<rparr>)"
  by (simp add: roughAdjustThumbnail_def groupPixIsFullImage_def Let_def)

lemma smoothSteps_Suc:
  "smoothSteps tk (Suc n) w = smoothSteps tk n (smoothNextThumbnail tk w)"
  by (simp add: smoothSteps_def funpow_swap1)

lemma smooth_head:
  "mThumbnailLoadJob w = None \<Longrightarrow> mSmoothThumbnailQueue w = u # rest \<Longrightarrow>
   mThumbnailForUrl w u = Some t2 \<Longrightarrow>
     mThumbnailForUrl (smoothNextThumbnail tk w) u
       = Some (t2\<lparr>mAdjustedPix := scaled tk (mGroupPix t2) (mThumbnailSize w) (mThumbnailSize w)
                                  KeepAspectRatio SmoothTransformation,
                 mRough := False\<rparr>)
     \<and> mSmoothThumbnailQueue (smoothNextThumbnail tk w) = rest"
  by (simp add: smoothNextThumbnail_def)

lemma smooth_other:
  "mThumbnailLoadJob w = None \<Longrightarrow> mSmoothThumbnailQueue w = p # rest \<Longrightarrow> p \<noteq> u \<Longrightarrow>
     mThumbnailForUrl (smoothNextThumbnail tk w) u = mThumbnailForUrl w u
     \<and> mSmoothThumbnailQueue (smoothNextThumbnail tk w) = rest
     \<and> mThumbnailLoadJob (smoothNextThumbnail tk w) = None
     \<and> mThumbnailSize (smoothNextThumbnail tk w) = mThumbnailSize w"
  by (simp add: smoothNextThumbnail_def split: option.splits)

lemma smooth_eventually:
  "mThumbnailLoadJob w = None \<Longrightarrow> mSmoothThumbnailQueue w = pre @ u # post \<Longrightarrow>
   u \<notin> set pre \<Longrightarrow> mThumbnailForUrl w u = Some t2 \<Longrightarrow>
     mThumbnailForUrl (smoothSteps tk (Suc (length pre)) w) u
       = Some (t2\<lparr>mAdjustedPix := scaled tk (mGroupPix t2) (mThumbnailSize w) (mThumbnailSize w)
                                  KeepAspectRatio SmoothTransformation,
                 mRough := False\<rparr>)
     \<and> mSmoothThumbnailQueue (smoothSteps tk (Suc (length pre)) w) = post"
proof (induction pre arbitrary: w)
  case Nil
  then show ?case
    using smooth_head [of w u post t2 tk] by (simp add: smoothSteps_def)
next
  case (Cons p pre)
  from Cons.prems have pu: "p \<noteq> u" and q: "mSmoothThumbnailQueue w = p # (pre @ u # post)"
    and n: "u \<notin> set pre" by auto
  note o = smooth_other [OF Cons.prems(1) q pu, of tk]
  from Cons.IH [of "smoothNextThumbnail tk w"] o n Cons.prems(4)
  show ?case by (simp add: smoothSteps_Suc)
qed

lemma queue_split:
  "u \<in> set q \<Longrightarrow> q = takeWhile (\<lambda>x. x \<noteq> u) q @ u # tl (dropWhile (\<lambda>x. x \<noteq> u) q)"
  by (induction q) auto

text \<open>C1, as the code has it. Take an item whose group pixmap is available when
  \<open>thumbnailForIndex\<close> looks at it. When its adjusted pixmap is not yet computed,
  \<open>thumbnailForIndex\<close> stores and returns what \<open>roughAdjustThumbnail\<close> gives, which
  keeps the group pixmap: the fast scaling of the group pixmap, flagged rough, unless the
  group pixmap is the full image at or below the thumbnail size; then the group pixmap is
  returned unscaled, the rough flag is cleared and \<open>thumbnailForIndex\<close> leaves the
  smoothing queue as it is. Whenever the cached thumbnail is rough after
  \<open>thumbnailForIndex\<close>, it is the one displayed, its url is in the smoothing queue (put
  at the end if it was not queued) and, with no load job, the call of
  \<open>smoothNextThumbnail\<close> that reaches the url's place in the queue stores the smooth
  scaling of the group pixmap and clears the rough flag. \<open>smoothNextThumbnail\<close> has
  no test of its own: with no load job, a url anywhere in the queue whose thumbnail is
  cached has it smooth-scaled by the call that reaches its first place in the queue.\<close>

theorem thumbnail_pipeline:
  assumes "\<not> fi_isNull (fileItemForIndex v idx)"
    and "\<not> isNull (mGroupPix (thumbnailWithIcon tk v idx))"
  shows
    "(isNull (mAdjustedPix (thumbnailWithIcon tk v idx)) \<longrightarrow>
        mThumbnailForUrl (snd (snd (thumbnailForIndex tk v idx fs))) (fi_url (fileItemForIndex v idx))
          = Some (roughAdjustThumbnail tk (mThumbnailSize v) (thumbnailWithIcon tk v idx))
        \<and> fst (thumbnailForIndex tk v idx fs)
            = mAdjustedPix (roughAdjustThumbnail tk (mThumbnailSize v) (thumbnailWithIcon tk v idx))
        \<and> mGroupPix (roughAdjustThumbnail tk (mThumbnailSize v) (thumbnailWithIcon tk v idx))
            = mGroupPix (thumbnailWithIcon tk v idx)
        \<and> (\<not> groupPixIsFullImage (thumbnailWithIcon tk v idx) (mThumbnailSize v) \<longrightarrow>
              fst (thumbnailForIndex tk v idx fs)
                = scaled tk (mGroupPix (thumbnailWithIcon tk v idx)) (mThumbnailSize v)
                    (mThumbnailSize v) KeepAspectRatio FastTransformation
              \<and> mRough (roughAdjustThumbnail tk (mThumbnailSize v) (thumbnailWithIcon tk v idx)))
        \<and> (groupPixIsFullImage (thumbnailWithIcon tk v idx) (mThumbnailSize v) \<longrightarrow>
              fst (thumbnailForIndex tk v idx fs) = mGroupPix (thumbnailWithIcon tk v idx)
              \<and> \<not> mRough (roughAdjustThumbnail tk (mThumbnailSize v) (thumbnailWithIcon tk v idx))
              \<and> mSmoothThumbnailQueue (snd (snd (thumbnailForIndex tk v idx fs)))
                  = mSmoothThumbnailQueue v))
     \<and> (\<forall>t'. mThumbnailForUrl (snd (snd (thumbnailForIndex tk v idx fs)))
                (fi_url (fileItemForIndex v idx)) = Some t' \<and> mRough t' \<longrightarrow>
              fst (thumbnailForIndex tk v idx fs) = mAdjustedPix t'
              \<and> mSmoothThumbnailQueue (snd (snd (thumbnailForIndex tk v idx fs)))
                  = (if fi_url (fileItemForIndex v idx) \<in> set (mSmoothThumbnailQueue v)
                     then mSmoothThumbnailQueue v
                     else mSmoothThumbnailQueue v @ [fi_url (fileItemForIndex v idx)])
              \<and> fi_url (fileItemForIndex v idx)
                  \<in> set (mSmoothThumbnailQueue (snd (snd (thumbnailForIndex tk v idx fs))))
              \<and> (mThumbnailLoadJob v = None \<longrightarrow>
                    mThumbnailForUrl
                      (smoothSteps tk
                         (Suc (length (takeWhile (\<lambda>x. x \<noteq> fi_url (fileItemForIndex v idx))
                            (mSmoothThumbnailQueue (snd (snd (thumbnailForIndex tk v idx fs)))))))
                         (snd (snd (thumbnailForIndex tk v idx fs))))
                      (fi_url (fileItemForIndex v idx))
                    = Some (t'\<lparr>mAdjustedPix :=
                                  scaled tk (mGroupPix t') (mThumbnailSize v) (mThumbnailSize v)
                                    KeepAspectRatio SmoothTransformation,
                                mRough := False\<rparr>)))
     \<and> (mThumbnailLoadJob w = None \<and> mSmoothThumbnailQueue w = pre @ u # post
          \<and> u \<notin> set pre \<and> mThumbnailForUrl w u = Some t2 \<longrightarrow>
            mThumbnailForUrl (smoothSteps tk (Suc (length pre)) w) u
              = Some (t2\<lparr>mAdjustedPix :=
                           scaled tk (mGroupPix t2) (mThumbnailSize w) (mThumbnailSize w)
                             KeepAspectRatio SmoothTransformation,
                         mRough := False\<rparr>)
            \<and> mSmoothThumbnailQueue (smoothSteps tk (Suc (length pre)) w) = post)"
proof -
  let ?u = "fi_url (fileItemForIndex v idx)"
  let ?n = "mThumbnailSize v"
  let ?t = "thumbnailWithIcon tk v idx"
  let ?r = "thumbnailForIndex tk v idx fs"
  let ?v = "snd (snd ?r)"
  note r = thumbnailForIndex_available [OF assms, of fs]
  have a: "isNull (mAdjustedPix ?t) \<longrightarrow>
        mThumbnailForUrl ?v ?u = Some (roughAdjustThumbnail tk ?n ?t)
        \<and> fst ?r = mAdjustedPix (roughAdjustThumbnail tk ?n ?t)
        \<and> mGroupPix (roughAdjustThumbnail tk ?n ?t) = mGroupPix ?t"
    by (simp add: r Let_def roughAdjust_cases)
  have b: "isNull (mAdjustedPix ?t) \<and> \<not> groupPixIsFullImage ?t ?n \<longrightarrow>
              fst ?r = scaled tk (mGroupPix ?t) ?n ?n KeepAspectRatio FastTransformation
              \<and> mRough (roughAdjustThumbnail tk ?n ?t)"
    by (simp add: r Let_def roughAdjust_cases)
  have c: "isNull (mAdjustedPix ?t) \<and> groupPixIsFullImage ?t ?n \<longrightarrow>
              fst ?r = mGroupPix ?t \<and> \<not> mRough (roughAdjustThumbnail tk ?n ?t)
              \<and> mSmoothThumbnailQueue ?v = mSmoothThumbnailQueue v"
    by (simp add: r Let_def roughAdjust_cases)
  have frame: "mThumbnailLoadJob ?v = mThumbnailLoadJob v" "mThumbnailSize ?v = ?n"
    by (simp_all add: r Let_def)
  have d: "\<forall>t'. mThumbnailForUrl ?v ?u = Some t' \<and> mRough t' \<longrightarrow>
              fst ?r = mAdjustedPix t'
              \<and> mSmoothThumbnailQueue ?v
                  = (if ?u \<in> set (mSmoothThumbnailQueue v) then mSmoothThumbnailQueue v
                     else mSmoothThumbnailQueue v @ [?u])
              \<and> ?u \<in> set (mSmoothThumbnailQueue ?v)"
    by (auto simp: r Let_def)
  have e: "\<forall>t'. mThumbnailForUrl ?v ?u = Some t' \<and> mRough t' \<and> mThumbnailLoadJob v = None \<longrightarrow>
             mThumbnailForUrl
               (smoothSteps tk (Suc (length (takeWhile (\<lambda>x. x \<noteq> ?u) (mSmoothThumbnailQueue ?v)))) ?v) ?u
             = Some (t'\<lparr>mAdjustedPix := scaled tk (mGroupPix t') ?n ?n KeepAspectRatio SmoothTransformation,
                        mRough := False\<rparr>)"
  proof (intro allI impI)
    fix t' assume h: "mThumbnailForUrl ?v ?u = Some t' \<and> mRough t' \<and> mThumbnailLoadJob v = None"
    with d have m: "?u \<in> set (mSmoothThumbnailQueue ?v)" by blast
    let ?pre = "takeWhile (\<lambda>x. x \<noteq> ?u) (mSmoothThumbnailQueue ?v)"
    have np: "?u \<notin> set ?pre" by (auto dest: set_takeWhileD)
    from h frame have j: "mThumbnailLoadJob ?v = None" by simp
    from h have ch: "mThumbnailForUrl ?v ?u = Some t'" by simp
    from smooth_eventually [OF j queue_split [OF m] np ch, of tk]
    show "mThumbnailForUrl (smoothSteps tk (Suc (length ?pre)) ?v) ?u
             = Some (t'\<lparr>mAdjustedPix := scaled tk (mGroupPix t') ?n ?n KeepAspectRatio SmoothTransformation,
                        mRough := False\<rparr>)"
      by (simp add: frame)
  qed
  note f = smooth_eventually [of w pre u post t2 tk]
  from a b c d e f show ?thesis by blast
qed

lemmas ex_pipeline_eval = thumbnailForIndex_def fileItemForIndex_def ex_index_def model_index_def
  createIndex_def isValid_def ex_view_def ex_item_def ex_thumbnail_def new_Thumbnail_def
  roughAdjustThumbnail_def ex_toolkit_def ex_scaled_def c_div_def Let_def SMOOTH_DELAY_def

theorem thumbnail_pipeline_witness:
  "\<not> fi_isNull (fileItemForIndex ex_view_queued ex_index)
   \<and> thumbnailWithIcon ex_toolkit ex_view_queued ex_index
       = ex_thumbnail (Pixmap 256 192 7) \<lparr>sz_width = 1024, sz_height = 768\<rparr>
   \<and> \<not> isNull (mGroupPix (thumbnailWithIcon ex_toolkit ex_view_queued ex_index))
   \<and> isNull (mAdjustedPix (thumbnailWithIcon ex_toolkit ex_view_queued ex_index))
   \<and> \<not> groupPixIsFullImage (thumbnailWithIcon ex_toolkit ex_view_queued ex_index) 128
   \<and> fst (thumbnailForIndex ex_toolkit ex_view_queued ex_index None) = Pixmap 128 96 15
   \<and> scaled ex_toolkit (Pixmap 256 192 7) 128 128 KeepAspectRatio FastTransformation = Pixmap 128 96 15
   \<and> mSmoothThumbnailQueue (snd (snd (thumbnailForIndex ex_toolkit ex_view_queued ex_index None)))
       = [''file:///z.png'', fi_url ex_item]
   \<and> map_option mAdjustedPix (mThumbnailForUrl
        (smoothSteps ex_toolkit 2 (snd (snd (thumbnailForIndex ex_toolkit ex_view_queued ex_index None))))
        (fi_url ex_item)) = Some (Pixmap 128 96 16)
   \<and> map_option mRough (mThumbnailForUrl
        (smoothSteps ex_toolkit 2 (snd (snd (thumbnailForIndex ex_toolkit ex_view_queued ex_index None))))
        (fi_url ex_item)) = Some False"
proof -
  let ?t = "ex_thumbnail (Pixmap 256 192 7) \<lparr>sz_width = 1024, sz_height = 768\<rparr>"
  let ?v = "snd (snd (thumbnailForIndex ex_toolkit ex_view_queued ex_index None))"
  have i: "fileItemForIndex ex_view_queued ex_index = ex_item"
    by (simp add: fileItemForIndex_def ex_index_def model_index_def createIndex_def isValid_def
          ex_view_queued_def ex_view_large_def ex_view_def)
  have h1: "\<not> fi_isNull (fileItemForIndex ex_view_queued ex_index)"
    unfolding i by (simp add: ex_item_def)
  have w: "thumbnailWithIcon ex_toolkit ex_view_queued ex_index = ?t"
    unfolding thumbnailWithIcon_def i
    by (simp add: ex_view_queued_def ex_view_large_def Let_def) (simp add: ex_item_def)
  have h2: "\<not> isNull (mGroupPix (thumbnailWithIcon ex_toolkit ex_view_queued ex_index))"
    and n: "isNull (mAdjustedPix (thumbnailWithIcon ex_toolkit ex_view_queued ex_index))"
    unfolding w by (simp_all add: ex_thumbnail_def new_Thumbnail_def)
  have s: "mThumbnailSize ex_view_queued = 128"
    "mSmoothThumbnailQueue ex_view_queued = [''file:///z.png'']"
    "mThumbnailLoadJob ex_view_queued = None"
    by (simp_all add: ex_view_queued_def ex_view_large_def ex_view_def)
  have f: "\<not> groupPixIsFullImage (thumbnailWithIcon ex_toolkit ex_view_queued ex_index)
             (mThumbnailSize ex_view_queued)"
    unfolding w s by (simp add: groupPixIsFullImage_def ex_thumbnail_def new_Thumbnail_def)
  have g: "mGroupPix ?t = Pixmap 256 192 7"
    by (simp add: ex_thumbnail_def new_Thumbnail_def)
  have sc: "scaled ex_toolkit (Pixmap 256 192 7) 128 128 KeepAspectRatio FastTransformation = Pixmap 128 96 15"
    "scaled ex_toolkit (Pixmap 256 192 7) 128 128 KeepAspectRatio SmoothTransformation = Pixmap 128 96 16"
    by (simp_all add: ex_toolkit_def ex_scaled_def c_div_def)
  have u: "fi_url ex_item \<notin> set [''file:///z.png'']" by (simp add: ex_item_def)
  note t = thumbnail_pipeline [OF h1 h2, where fs = None]
  note ta = t [THEN conjunct1, rule_format, OF n]
  note tb = t [THEN conjunct2, THEN conjunct1, rule_format]
  from ta [THEN conjunct1] have c: "mThumbnailForUrl ?v (fi_url ex_item)
      = Some (roughAdjustThumbnail ex_toolkit 128 ?t)"
    by (simp add: i w s)
  note tr = ta [THEN conjunct2, THEN conjunct2, THEN conjunct2, THEN conjunct1, rule_format, OF f]
  from tr [THEN conjunct1]
  have a: "fst (thumbnailForIndex ex_toolkit ex_view_queued ex_index None) = Pixmap 128 96 15"
    by (simp add: w s g sc)
  from tr [THEN conjunct2]
  have ro: "mRough (roughAdjustThumbnail ex_toolkit 128 ?t)"
    by (simp add: w s)
  from ta [THEN conjunct2, THEN conjunct2, THEN conjunct1]
  have gp: "mGroupPix (roughAdjustThumbnail ex_toolkit 128 ?t) = Pixmap 256 192 7"
    by (simp add: w s g)
  from tb [of "roughAdjustThumbnail ex_toolkit 128 ?t"] c ro
  have q: "mSmoothThumbnailQueue ?v = [''file:///z.png'', fi_url ex_item]"
    using u by (simp add: i s)
  from tb [of "roughAdjustThumbnail ex_toolkit 128 ?t"] c ro
  have sm: "mThumbnailForUrl (smoothSteps ex_toolkit 2 ?v) (fi_url ex_item)
      = Some ((roughAdjustThumbnail ex_toolkit 128 ?t)\<lparr>mAdjustedPix := Pixmap 128 96 16, mRough := False\<rparr>)"
    using u by (simp add: i s q gp sc numeral_2_eq_2 ex_item_def)
  from h1 w h2 n f a sc(1) q sm show ?thesis by (simp add: s)
qed

text \<open>Two runs the statement above leaves room for. A group pixmap of 100 x 80 that is
  the full image, at thumbnail size 128: the pixmap returned is the group pixmap itself
  and not its scaling, the thumbnail is not rough, nothing is queued and
  \<open>smoothNextThumbnail\<close> does nothing. And a url still queued when a new group pixmap
  is loaded: \<open>smoothNextThumbnail\<close> smooth-scales the new pixmap, which has no
  adjusted pixmap yet, and \<open>thumbnailForIndex\<close> then returns the smooth pixmap; this
  thumbnail is never rough-scaled.\<close>

theorem small_image_is_never_scaled:
  "\<not> isNull (mGroupPix (ex_thumbnail (Pixmap 100 80 7) \<lparr>sz_width = 100, sz_height = 80\<rparr>))
   \<and> mThumbnailForUrl ex_view_small (fi_url ex_item)
       = Some (ex_thumbnail (Pixmap 100 80 7) \<lparr>sz_width = 100, sz_height = 80\<rparr>)
   \<and> fileItemForIndex ex_view_small ex_index = ex_item
   \<and> fst (thumbnailForIndex ex_toolkit ex_view_small ex_index None) = Pixmap 100 80 7
   \<and> scaled ex_toolkit (Pixmap 100 80 7) 128 128 KeepAspectRatio FastTransformation = Pixmap 128 102 15
   \<and> map_option mRough (mThumbnailForUrl (snd (snd (thumbnailForIndex ex_toolkit ex_view_small ex_index None)))
        (fi_url ex_item)) = Some False
   \<and> mSmoothThumbnailQueue (snd (snd (thumbnailForIndex ex_toolkit ex_view_small ex_index None))) = []
   \<and> smoothNextThumbnail ex_toolkit (snd (snd (thumbnailForIndex ex_toolkit ex_view_small ex_index None)))
       = snd (snd (thumbnailForIndex ex_toolkit ex_view_small ex_index None))
   \<and> map_option mAdjustedPix (mThumbnailForUrl
        (setThumbnail ex_toolkit ex_view_stale ex_item (Pixmap 256 192 7) \<lparr>sz_width = 1024, sz_height = 768\<rparr>)
        (fi_url ex_item)) = Some NullPixmap
   \<and> map_option mAdjustedPix (mThumbnailForUrl
        (smoothNextThumbnail ex_toolkit
          (setThumbnail ex_toolkit ex_view_stale ex_item (Pixmap 256 192 7) \<lparr>sz_width = 1024, sz_height = 768\<rparr>))
        (fi_url ex_item)) = Some (Pixmap 128 96 16)
   \<and> fst (thumbnailForIndex ex_toolkit
        (smoothNextThumbnail ex_toolkit
          (setThumbnail ex_toolkit ex_view_stale ex_item (Pixmap 256 192 7) \<lparr>sz_width = 1024, sz_height = 768\<rparr>))
        ex_index None) = Pixmap 128 96 16"
proof -
  have a: "\<not> isNull (mGroupPix (ex_thumbnail (Pixmap 100 80 7) \<lparr>sz_width = 100, sz_height = 80\<rparr>))"
    by (simp add: ex_thumbnail_def new_Thumbnail_def)
  have b: "mThumbnailForUrl ex_view_small (fi_url ex_item)
       = Some (ex_thumbnail (Pixmap 100 80 7) \<lparr>sz_width = 100, sz_height = 80\<rparr>)"
    by (simp add: ex_view_small_def)
  have i: "fileItemForIndex ex_view_small ex_index = ex_item"
    by (simp add: fileItemForIndex_def ex_index_def model_index_def createIndex_def isValid_def
          ex_view_small_def ex_view_def)
  have c: "fst (thumbnailForIndex ex_toolkit ex_view_small ex_index None) = Pixmap 100 80 7"
    by (simp add: ex_pipeline_eval ex_view_small_def)
  have d: "scaled ex_toolkit (Pixmap 100 80 7) 128 128 KeepAspectRatio FastTransformation = Pixmap 128 102 15"
    by (simp add: ex_toolkit_def ex_scaled_def c_div_def)
  have e: "map_option mRough (mThumbnailForUrl (snd (snd (thumbnailForIndex ex_toolkit ex_view_small ex_index None)))
        (fi_url ex_item)) = Some False"
    by (simp add: ex_pipeline_eval ex_view_small_def)
  have q: "mSmoothThumbnailQueue (snd (snd (thumbnailForIndex ex_toolkit ex_view_small ex_index None))) = []"
    by (simp add: ex_pipeline_eval ex_view_small_def)
  have s: "smoothNextThumbnail ex_toolkit (snd (snd (thumbnailForIndex ex_toolkit ex_view_small ex_index None)))
       = snd (snd (thumbnailForIndex ex_toolkit ex_view_small ex_index None))"
    using q by (simp add: smoothNextThumbnail_def)
  let ?vs = "setThumbnail ex_toolkit ex_view_stale ex_item (Pixmap 256 192 7) \<lparr>sz_width = 1024, sz_height = 768\<rparr>"
  have l: "map_option mAdjustedPix (mThumbnailForUrl ?vs (fi_url ex_item)) = Some NullPixmap"
    by (simp add: setThumbnail_def ex_view_stale_def Let_def)
  have m: "map_option mAdjustedPix (mThumbnailForUrl (smoothNextThumbnail ex_toolkit ?vs) (fi_url ex_item))
       = Some (Pixmap 128 96 16)"
    by (simp add: smoothNextThumbnail_def setThumbnail_def ex_view_stale_def ex_view_def Let_def
          ex_toolkit_def ex_scaled_def c_div_def)
  have r: "fst (thumbnailForIndex ex_toolkit (smoothNextThumbnail ex_toolkit ?vs) ex_index None)
       = Pixmap 128 96 16"
    by (simp add: smoothNextThumbnail_def setThumbnail_def ex_view_stale_def size_isValid_def
          ex_pipeline_eval)
  from a b i c d e q s l m r show ?thesis by simp
qed

subsection \<open>Thumbnails for the visible items\<close>

lemma update_modified:
  "updateThumbnailForModifiedDocument tk p w idx
     = w\<lparr>mThumbnailForUrl := (mThumbnailForUrl w)(fi_url (fileItemForIndex w idx) \<mapsto>
           modifiedThumbnail tk p idx (fi_url (fileItemForIndex w idx)) (mThumbnailSize w))\<rparr>"
  by (simp add: updateThumbnailForModifiedDocument_def setThumbnail_def modifiedThumbnail_def
        new_Thumbnail_def Let_def split: prod.splits)

lemma item_at_row:
  "view_model w = Some rows \<Longrightarrow> k < length rows \<Longrightarrow>
     fileItemForIndex w (model_index (int k) 0) = rows ! k"
  by (simp add: fileItemForIndex_def model_index_def createIndex_def isValid_def)

lemma row_step:
  assumes "view_model w = Some rows" "k < length rows"
  shows "visibleItems_row tk R (list, w) k =
     (if \<not> intersects tk R (visualRect w (model_index (int k) 0)) \<or> fi_kind (rows ! k) = KIND_ARCHIVE
      then (list, w)
      else case modifiedProvider w (fi_url (rows ! k)) of
             Some p \<Rightarrow> (list, w\<lparr>mThumbnailForUrl := (mThumbnailForUrl w)(fi_url (rows ! k) \<mapsto>
                 modifiedThumbnail tk p (model_index (int k) 0) (fi_url (rows ! k)) (mThumbnailSize w))\<rparr>)
           | None \<Rightarrow>
               if cachedAdapted w (fi_url (rows ! k)) then (list, w)
               else (list @ [rows ! k],
                     case mThumbnailForUrl w (fi_url (rows ! k)) of
                       Some t \<Rightarrow> w
                     | None \<Rightarrow> w\<lparr>mThumbnailForUrl := (mThumbnailForUrl w)(fi_url (rows ! k) \<mapsto>
                          new_Thumbnail (model_index (int k) 0) (fi_time (rows ! k)))\<rparr>))"
  using assms
  by (simp add: visibleItems_row_def item_at_row update_modified cachedAdapted_def Let_def
        split: option.splits)

lemma sameButCache_refl: "sameButCache v v"
  by (simp add: sameButCache_def)

lemma sameButCache_upd: "sameButCache v w \<Longrightarrow> sameButCache v (w\<lparr>mThumbnailForUrl := m\<rparr>)"
proof -
  assume "sameButCache v w"
  then have "w = v\<lparr>mThumbnailForUrl := mThumbnailForUrl w\<rparr>" by (simp add: sameButCache_def)
  then have "w\<lparr>mThumbnailForUrl := m\<rparr> = v\<lparr>mThumbnailForUrl := mThumbnailForUrl w\<rparr>\<lparr>mThumbnailForUrl := m\<rparr>"
    by simp
  then show ?thesis by (simp add: sameButCache_def)
qed

lemma sameButCache_fields:
  assumes "sameButCache v w"
  shows "view_model w = view_model v" "visualRect w = visualRect v"
    "mThumbnailSize w = mThumbnailSize v" "mDocumentInfoProvider w = mDocumentInfoProvider v"
    "mThumbnailLoadJob w = mThumbnailLoadJob v"
proof -
  from assms have e: "w = v\<lparr>mThumbnailForUrl := mThumbnailForUrl w\<rparr>" by (simp add: sameButCache_def)
  show "view_model w = view_model v" by (subst e) simp
  show "visualRect w = visualRect v" by (subst e) simp
  show "mThumbnailSize w = mThumbnailSize v" by (subst e) simp
  show "mDocumentInfoProvider w = mDocumentInfoProvider v" by (subst e) simp
  show "mThumbnailLoadJob w = mThumbnailLoadJob v" by (subst e) simp
qed

lemma sameButCache_modifiedProvider:
  "sameButCache v w \<Longrightarrow> modifiedProvider w u = modifiedProvider v u"
  by (simp add: modifiedProvider_def sameButCache_fields)

lemma cachedAdapted_upd:
  "cachedAdapted (w\<lparr>mThumbnailForUrl := (mThumbnailForUrl w)(u \<mapsto> t)\<rparr>) u'
     = (if u' = u then isGroupPixAdaptedForSize t (mThumbnailSize w) else cachedAdapted w u')"
  by (simp add: cachedAdapted_def split: option.splits)

lemma new_Thumbnail_not_adapted: "\<not> isGroupPixAdaptedForSize (new_Thumbnail i t) n"
  by (simp add: isGroupPixAdaptedForSize_def new_Thumbnail_def)

lemma upt_filter_Suc:
  "filter P [0 ..< Suc k] = filter P [0 ..< k] @ (if P k then [k] else [])"
  by simp

lemma inv_step:
  assumes inv: "visibleItems_inv tk v rows k (list, w)"
    and m: "view_model v = Some rows" and k: "k < length rows"
  shows "visibleItems_inv tk v rows (Suc k) (visibleItems_row tk (extendedVisibleRect v) (list, w) k)"
proof -
  let ?u = "fi_url (rows ! k)"
  let ?idx = "model_index (int k) 0"
  from inv have frame: "sameButCache v w"
    and l: "list = map (\<lambda>r. rows ! r) (filter (rowNeedsThumbnail tk v rows) [0 ..< k])"
    and ad: "\<And>u. modifiedProvider v u = None \<Longrightarrow> cachedAdapted w u = cachedAdapted v u"
    and dm: "\<And>item. item \<in> set list \<Longrightarrow> fi_url item \<in> dom (mThumbnailForUrl w)"
    and md: "\<And>r p. r < k \<Longrightarrow> rowIsModified tk v rows r p \<Longrightarrow>
            (\<exists>r' < k. fi_url (rows ! r') = fi_url (rows ! r)
               \<and> mThumbnailForUrl w (fi_url (rows ! r))
                   = Some (modifiedThumbnail tk p (model_index (int r') 0) (fi_url (rows ! r))
                            (mThumbnailSize v)))"
    by (auto simp: visibleItems_inv_def)
  note fr = sameButCache_fields [OF frame]
  have mw: "view_model w = Some rows" using m fr by simp
  have mp: "modifiedProvider w ?u = modifiedProvider v ?u"
    using frame by (rule sameButCache_modifiedProvider)
  note step = row_step [OF mw k, of tk "extendedVisibleRect v" list]
  have shown: "intersects tk (extendedVisibleRect v) (visualRect w ?idx) = rowIsShown tk v k"
    by (simp add: rowIsShown_def fr)
  show ?thesis
  proof (cases "rowIsShown tk v k \<and> fi_kind (rows ! k) \<noteq> KIND_ARCHIVE")
    case False
    then have res: "visibleItems_row tk (extendedVisibleRect v) (list, w) k = (list, w)"
      using step shown by auto
    from False have nn: "\<not> rowNeedsThumbnail tk v rows k" by (auto simp: rowNeedsThumbnail_def)
    from False have nm: "\<And>p. \<not> rowIsModified tk v rows k p" by (auto simp: rowIsModified_def)
    have md': "\<And>r p. r < Suc k \<Longrightarrow> rowIsModified tk v rows r p \<Longrightarrow>
            (\<exists>r' < Suc k. fi_url (rows ! r') = fi_url (rows ! r)
               \<and> mThumbnailForUrl w (fi_url (rows ! r))
                   = Some (modifiedThumbnail tk p (model_index (int r') 0) (fi_url (rows ! r))
                            (mThumbnailSize v)))"
    proof -
      fix r p assume "r < Suc k" "rowIsModified tk v rows r p"
      with nm have "r < k" by (cases "r = k") auto
      from md [OF this \<open>rowIsModified tk v rows r p\<close>] show "\<exists>r' < Suc k. fi_url (rows ! r') = fi_url (rows ! r)
               \<and> mThumbnailForUrl w (fi_url (rows ! r))
                   = Some (modifiedThumbnail tk p (model_index (int r') 0) (fi_url (rows ! r))
                            (mThumbnailSize v))"
        using less_Suc_eq by blast
    qed
    show ?thesis
      unfolding res visibleItems_inv_def fst_conv snd_conv upt_filter_Suc
      using frame l nn ad dm md' by auto
  next
    case True
    show ?thesis
    proof (cases "modifiedProvider v ?u")
      case (Some p)
      let ?t = "modifiedThumbnail tk p ?idx ?u (mThumbnailSize w)"
      let ?w = "w\<lparr>mThumbnailForUrl := (mThumbnailForUrl w)(?u \<mapsto> ?t)\<rparr>"
      have res: "visibleItems_row tk (extendedVisibleRect v) (list, w) k = (list, ?w)"
        using step shown True Some mp by simp
      from Some have nn: "\<not> rowNeedsThumbnail tk v rows k" by (auto simp: rowNeedsThumbnail_def)
      have frame': "sameButCache v ?w" using frame by (rule sameButCache_upd)
      have ad': "\<And>u. modifiedProvider v u = None \<Longrightarrow> cachedAdapted ?w u = cachedAdapted v u"
      proof -
        fix u assume n: "modifiedProvider v u = None"
        with Some have "u \<noteq> ?u" by auto
        then show "cachedAdapted ?w u = cachedAdapted v u"
          using ad [OF n] by (simp add: cachedAdapted_upd)
      qed
      have dm': "\<And>item. item \<in> set list \<Longrightarrow> fi_url item \<in> dom (mThumbnailForUrl ?w)"
        using dm by auto
      have md': "\<And>r q. r < Suc k \<Longrightarrow> rowIsModified tk v rows r q \<Longrightarrow>
            (\<exists>r' < Suc k. fi_url (rows ! r') = fi_url (rows ! r)
               \<and> mThumbnailForUrl ?w (fi_url (rows ! r))
                   = Some (modifiedThumbnail tk q (model_index (int r') 0) (fi_url (rows ! r))
                            (mThumbnailSize v)))"
      proof -
        fix r q assume r: "r < Suc k" and rm: "rowIsModified tk v rows r q"
        show "\<exists>r' < Suc k. fi_url (rows ! r') = fi_url (rows ! r)
               \<and> mThumbnailForUrl ?w (fi_url (rows ! r))
                   = Some (modifiedThumbnail tk q (model_index (int r') 0) (fi_url (rows ! r))
                            (mThumbnailSize v))"
        proof (cases "fi_url (rows ! r) = ?u")
          case same: True
          with rm Some have "q = p" by (simp add: rowIsModified_def)
          with same show ?thesis
            by (intro exI [of _ k]) (simp add: fr)
        next
          case other: False
          with r have "r < k" by (cases "r = k") auto
          from md [OF this rm] obtain r' where "r' < k" "fi_url (rows ! r') = fi_url (rows ! r)"
            "mThumbnailForUrl w (fi_url (rows ! r))
                   = Some (modifiedThumbnail tk q (model_index (int r') 0) (fi_url (rows ! r))
                            (mThumbnailSize v))" by blast
          with other show ?thesis
            by (intro exI [of _ r']) simp
        qed
      qed
      show ?thesis
        unfolding res visibleItems_inv_def fst_conv snd_conv upt_filter_Suc
        using frame' l nn ad' dm' md' by auto
    next
      case None
      from None have nm: "\<And>p. \<not> rowIsModified tk v rows k p" by (auto simp: rowIsModified_def)
      have needs: "rowNeedsThumbnail tk v rows k = (\<not> cachedAdapted w ?u)"
        using True None ad [OF None] by (simp add: rowNeedsThumbnail_def)
      show ?thesis
      proof (cases "cachedAdapted w ?u")
        case adapted: True
        then have res: "visibleItems_row tk (extendedVisibleRect v) (list, w) k = (list, w)"
          using step shown True None mp by simp
        have md': "\<And>r p. r < Suc k \<Longrightarrow> rowIsModified tk v rows r p \<Longrightarrow>
            (\<exists>r' < Suc k. fi_url (rows ! r') = fi_url (rows ! r)
               \<and> mThumbnailForUrl w (fi_url (rows ! r))
                   = Some (modifiedThumbnail tk p (model_index (int r') 0) (fi_url (rows ! r))
                            (mThumbnailSize v)))"
        proof -
          fix r p assume "r < Suc k" and rm: "rowIsModified tk v rows r p"
          with nm have "r < k" by (cases "r = k") auto
          from md [OF this rm] show "\<exists>r' < Suc k. fi_url (rows ! r') = fi_url (rows ! r)
               \<and> mThumbnailForUrl w (fi_url (rows ! r))
                   = Some (modifiedThumbnail tk p (model_index (int r') 0) (fi_url (rows ! r))
                            (mThumbnailSize v))"
            using less_Suc_eq by blast
        qed
        show ?thesis
          unfolding res visibleItems_inv_def fst_conv snd_conv upt_filter_Suc
          using frame l needs adapted ad dm md' by auto
      next
        case notadapted: False
        let ?w = "case mThumbnailForUrl w ?u of
                       Some t \<Rightarrow> w
                     | None \<Rightarrow> w\<lparr>mThumbnailForUrl := (mThumbnailForUrl w)(?u \<mapsto>
                          new_Thumbnail ?idx (fi_time (rows ! k)))\<rparr>"
        have res: "visibleItems_row tk (extendedVisibleRect v) (list, w) k = (list @ [rows ! k], ?w)"
          using step shown True None mp notadapted by simp
        have frame': "sameButCache v ?w"
          using frame by (auto split: option.splits intro: sameButCache_upd)
        have cache': "\<And>u. u \<noteq> ?u \<Longrightarrow> mThumbnailForUrl ?w u = mThumbnailForUrl w u"
          by (auto split: option.splits)
        have in_dom: "?u \<in> dom (mThumbnailForUrl ?w)"
          by (auto split: option.splits)
        have ad_w: "\<And>u. cachedAdapted ?w u = cachedAdapted w u"
        proof -
          fix u show "cachedAdapted ?w u = cachedAdapted w u"
          proof (cases "mThumbnailForUrl w ?u")
            case (Some t) then show ?thesis by simp
          next
            case n: None
            then show ?thesis
              by (simp add: cachedAdapted_upd new_Thumbnail_not_adapted) (simp add: cachedAdapted_def)
          qed
        qed
        have dm': "\<And>item. item \<in> set (list @ [rows ! k]) \<Longrightarrow> fi_url item \<in> dom (mThumbnailForUrl ?w)"
        proof -
          fix item assume "item \<in> set (list @ [rows ! k])"
          then consider "item \<in> set list" | "item = rows ! k" by auto
          then show "fi_url item \<in> dom (mThumbnailForUrl ?w)"
          proof cases
            case 1
            from dm [OF this] show ?thesis by (auto split: option.splits)
          next
            case 2
            with in_dom show ?thesis by simp
          qed
        qed
        have md': "\<And>r p. r < Suc k \<Longrightarrow> rowIsModified tk v rows r p \<Longrightarrow>
            (\<exists>r' < Suc k. fi_url (rows ! r') = fi_url (rows ! r)
               \<and> mThumbnailForUrl ?w (fi_url (rows ! r))
                   = Some (modifiedThumbnail tk p (model_index (int r') 0) (fi_url (rows ! r))
                            (mThumbnailSize v)))"
        proof -
          fix r p assume "r < Suc k" and rm: "rowIsModified tk v rows r p"
          with nm have rk: "r < k" by (cases "r = k") auto
          from rm None have ne: "fi_url (rows ! r) \<noteq> ?u" by (auto simp: rowIsModified_def)
          from md [OF rk rm] cache' [OF ne] show "\<exists>r' < Suc k. fi_url (rows ! r') = fi_url (rows ! r)
               \<and> mThumbnailForUrl ?w (fi_url (rows ! r))
                   = Some (modifiedThumbnail tk p (model_index (int r') 0) (fi_url (rows ! r))
                            (mThumbnailSize v))"
            using less_Suc_eq by auto
        qed
        have l': "list @ [rows ! k] = map (\<lambda>r. rows ! r) (filter (rowNeedsThumbnail tk v rows) [0 ..< Suc k])"
          unfolding upt_filter_Suc using l needs notadapted by simp
        show ?thesis
          unfolding res visibleItems_inv_def fst_conv snd_conv
          using frame' l' ad ad_w dm' md' by auto
      qed
    qed
  qed
qed

lemma inv_loop:
  assumes m: "view_model v = Some rows"
  shows "k \<le> length rows \<Longrightarrow> visibleItems_inv tk v rows k (visibleItems_loop tk v k)"
proof (induction k)
  case 0
  show ?case
    by (simp add: visibleItems_loop_def visibleItems_inv_def sameButCache_refl)
next
  case (Suc k)
  then have iv: "visibleItems_inv tk v rows k (visibleItems_loop tk v k)" and k: "k < length rows"
    by simp_all
  obtain list w where lw: "visibleItems_loop tk v k = (list, w)" by (cases "visibleItems_loop tk v k")
  have "visibleItems_loop tk v (Suc k)
      = visibleItems_row tk (extendedVisibleRect v) (visibleItems_loop tk v k) k"
    by (simp add: visibleItems_loop_def)
  with inv_step [OF iv [unfolded lw] m k] lw show ?case by simp
qed

lemma generateThumbnailsForItems_cache:
  "mThumbnailForUrl (generateThumbnailsForItems tk w list) = mThumbnailForUrl w"
  by (simp add: generateThumbnailsForItems_def Let_def split: option.splits)

lemma generateThumbnailsForItems_jobItems:
  "jobItems (generateThumbnailsForItems tk w list) = jobItems w @ list"
  by (simp add: generateThumbnailsForItems_def jobItems_def Let_def split: option.splits)

lemma generate_visible:
  "view_isVisible v \<Longrightarrow> view_model v = Some rows \<Longrightarrow>
     generateThumbnailsForVisibleItems tk v
       = (if fst (visibleItems_loop tk v (length rows)) = []
          then snd (visibleItems_loop tk v (length rows))
          else generateThumbnailsForItems tk (snd (visibleItems_loop tk v (length rows)))
                 (fst (visibleItems_loop tk v (length rows))))"
  by (simp add: generateThumbnailsForVisibleItems_def split: prod.splits)

lemma loop_jobItems:
  "view_model v = Some rows \<Longrightarrow> jobItems (snd (visibleItems_loop tk v (length rows))) = jobItems v"
proof -
  assume "view_model v = Some rows"
  from inv_loop [OF this, of "length rows" tk]
  have "sameButCache v (snd (visibleItems_loop tk v (length rows)))"
    by (simp add: visibleItems_inv_def)
  from sameButCache_fields(5) [OF this] show ?thesis by (simp add: jobItems_def)
qed

lemmas ex_eval = visibleItems_loop_def visibleItems_row_def
  fileItemForIndex_def model_index_def createIndex_def isValid_def extendedVisibleRect_def
  rect_adjust_def rect_width_def int32_def c_div_def ex_toolkit_def modifiedProvider_def Let_def
  generateThumbnailsForVisibleItems_def generateThumbnailsForItems_def
  updateThumbnailForModifiedDocument_def setThumbnail_def new_Thumbnail_def
  rowNeedsThumbnail_def rowIsShown_def rowIsModified_def cachedAdapted_def jobItems_def

text \<open>C3, as the code has it: when the view is visible and has a model, the items
  \<open>generateThumbnailsForVisibleItems\<close> collects, and hands to the load job after those
  the job already had, are exactly the rows, in order, that meet the extended visible
  rectangle, are no archives, are not reported modified and have no group pixmap adapted
  to the thumbnail size in the cache as it was at the start; every collected item is in
  the cache before the list is handed to \<open>generateThumbnailsForItems\<close>, and so
  afterwards.\<close>

theorem visible_items_submitted:
  assumes "view_isVisible v" and "view_model v = Some rows"
  shows "fst (visibleItems_loop tk v (length rows))
           = map (\<lambda>r. rows ! r) (filter (rowNeedsThumbnail tk v rows) [0 ..< length rows])
    \<and> (\<forall>item \<in> set (fst (visibleItems_loop tk v (length rows))).
          fi_url item \<in> dom (mThumbnailForUrl (snd (visibleItems_loop tk v (length rows)))))
    \<and> generateThumbnailsForVisibleItems tk v
         = (if fst (visibleItems_loop tk v (length rows)) = []
            then snd (visibleItems_loop tk v (length rows))
            else generateThumbnailsForItems tk (snd (visibleItems_loop tk v (length rows)))
                   (fst (visibleItems_loop tk v (length rows))))
    \<and> jobItems (generateThumbnailsForVisibleItems tk v)
         = jobItems v @ map (\<lambda>r. rows ! r) (filter (rowNeedsThumbnail tk v rows) [0 ..< length rows])
    \<and> (\<forall>r < length rows. rowNeedsThumbnail tk v rows r \<longrightarrow>
          fi_url (rows ! r) \<in> dom (mThumbnailForUrl (generateThumbnailsForVisibleItems tk v)))"
proof -
  let ?loop = "visibleItems_loop tk v (length rows)"
  let ?sub = "map (\<lambda>r. rows ! r) (filter (rowNeedsThumbnail tk v rows) [0 ..< length rows])"
  from inv_loop [OF assms(2), of "length rows" tk]
  have l: "fst ?loop = ?sub"
    and d: "\<forall>item \<in> set (fst ?loop). fi_url item \<in> dom (mThumbnailForUrl (snd ?loop))"
    by (simp_all add: visibleItems_inv_def)
  note g = generate_visible [OF assms, of tk]
  have j: "jobItems (generateThumbnailsForVisibleItems tk v) = jobItems v @ ?sub"
    using l loop_jobItems [OF assms(2), of tk]
    by (simp add: g generateThumbnailsForItems_jobItems)
  have c: "mThumbnailForUrl (generateThumbnailsForVisibleItems tk v) = mThumbnailForUrl (snd ?loop)"
    by (simp add: g generateThumbnailsForItems_cache)
  have e: "\<forall>r < length rows. rowNeedsThumbnail tk v rows r \<longrightarrow>
          fi_url (rows ! r) \<in> dom (mThumbnailForUrl (generateThumbnailsForVisibleItems tk v))"
  proof (intro allI impI)
    fix r assume "r < length rows" "rowNeedsThumbnail tk v rows r"
    then have "rows ! r \<in> set (fst ?loop)" unfolding l by simp
    with d show "fi_url (rows ! r) \<in> dom (mThumbnailForUrl (generateThumbnailsForVisibleItems tk v))"
      unfolding c by blast
  qed
  from l d g j e show ?thesis by blast
qed

theorem visible_items_submitted_witness:
  "view_isVisible ex_view \<and> view_model ex_view = Some [ex_item]
   \<and> rowNeedsThumbnail ex_toolkit ex_view [ex_item] 0
   \<and> jobItems (generateThumbnailsForVisibleItems ex_toolkit ex_view) = [ex_item]
   \<and> fi_url ex_item \<in> dom (mThumbnailForUrl (generateThumbnailsForVisibleItems ex_toolkit ex_view))
   \<and> extendedVisibleRect (ex_view\<lparr>mThumbnailSize := 1073741824\<rparr>)
       = \<lparr>rx1 = 0, ry1 = 0, rx2 = 399, ry2 = - 2147483349\<rparr>
   \<and> \<not> rowNeedsThumbnail ex_toolkit (ex_view\<lparr>mThumbnailSize := 1073741824\<rparr>) [ex_item] 0"
proof -
  have a: "view_isVisible ex_view" by (simp add: ex_view_def)
  have b: "view_model ex_view = Some [ex_item]" by (simp add: ex_view_def)
  have n: "rowNeedsThumbnail ex_toolkit ex_view [ex_item] 0"
    by (simp add: ex_eval ex_view_def ex_item_def)
  have j: "jobItems ex_view = []" by (simp add: jobItems_def ex_view_def)
  note t = visible_items_submitted [OF a b, of ex_toolkit]
  have f: "filter (rowNeedsThumbnail ex_toolkit ex_view [ex_item]) [0 ..< length [ex_item]] = [0]"
    using n by simp
  from t [THEN conjunct2, THEN conjunct2, THEN conjunct2, THEN conjunct1]
  have s: "jobItems (generateThumbnailsForVisibleItems ex_toolkit ex_view) = [ex_item]"
    unfolding f j by simp
  from t [THEN conjunct2, THEN conjunct2, THEN conjunct2, THEN conjunct2] n
  have d: "fi_url ex_item \<in> dom (mThumbnailForUrl (generateThumbnailsForVisibleItems ex_toolkit ex_view))"
    by simp
  have e: "extendedVisibleRect (ex_view\<lparr>mThumbnailSize := 1073741824\<rparr>)
       = \<lparr>rx1 = 0, ry1 = 0, rx2 = 399, ry2 = - 2147483349\<rparr>"
    by (simp add: extendedVisibleRect_def rect_adjust_def int32_def ex_view_def)
  have o: "\<not> rowNeedsThumbnail ex_toolkit (ex_view\<lparr>mThumbnailSize := 1073741824\<rparr>) [ex_item] 0"
    by (simp add: rowNeedsThumbnail_def rowIsShown_def e)
       (simp add: ex_view_def ex_toolkit_def model_index_def createIndex_def)
  from a b n s d e o show ?thesis by blast
qed

text \<open>A view that is not visible returns at once: its only row meets every condition
  and is neither handed to a load job nor put in the cache.\<close>

theorem hidden_view_submits_nothing:
  "rowNeedsThumbnail ex_toolkit ex_view_hidden [ex_item] 0
   \<and> view_model ex_view_hidden = Some [ex_item]
   \<and> generateThumbnailsForVisibleItems ex_toolkit ex_view_hidden = ex_view_hidden
   \<and> jobItems (generateThumbnailsForVisibleItems ex_toolkit ex_view_hidden) = []
   \<and> mThumbnailForUrl (generateThumbnailsForVisibleItems ex_toolkit ex_view_hidden) (fi_url ex_item) = None"
proof -
  have n: "rowNeedsThumbnail ex_toolkit ex_view_hidden [ex_item] 0"
    by (simp add: ex_eval ex_view_hidden_def ex_view_def ex_item_def)
  have m: "view_model ex_view_hidden = Some [ex_item]"
    by (simp add: ex_view_hidden_def ex_view_def)
  have g: "generateThumbnailsForVisibleItems ex_toolkit ex_view_hidden = ex_view_hidden"
    by (simp add: generateThumbnailsForVisibleItems_def ex_view_hidden_def ex_view_def)
  have j: "jobItems ex_view_hidden = []"
    by (simp add: jobItems_def ex_view_hidden_def ex_view_def)
  have c: "mThumbnailForUrl ex_view_hidden (fi_url ex_item) = None"
    by (simp add: ex_view_hidden_def ex_view_def)
  from n m g j c show ?thesis by simp
qed

text \<open>C5, as the code has it: when the view is visible and has a model, a row that
  meets the extended visible rectangle, is no archive and is reported modified by the
  provider is not among the items \<open>generateThumbnailsForVisibleItems\<close> hands to the
  load job, and afterwards the cache holds for its url the thumbnail built from what
  \<open>thumbnailForDocument\<close> returned (for a row of that url): its group pixmap and real
  full size are the provider's, and it no longer waits for a thumbnail.
  \<open>updateThumbnail\<close> on an index whose url is reported modified changes nothing but
  the cache entry of that url, which becomes that thumbnail.\<close>

theorem modified_items_updated:
  assumes "view_isVisible v" and "view_model v = Some rows"
    and "row < length rows" and "rowIsModified tk v rows row p"
  shows "(\<forall>item \<in> set (fst (visibleItems_loop tk v (length rows))). fi_url item \<noteq> fi_url (rows ! row))
    \<and> jobItems (generateThumbnailsForVisibleItems tk v)
         = jobItems v @ fst (visibleItems_loop tk v (length rows))
    \<and> (\<exists>r' < length rows. fi_url (rows ! r') = fi_url (rows ! row)
          \<and> mThumbnailForUrl (generateThumbnailsForVisibleItems tk v) (fi_url (rows ! row))
              = Some (modifiedThumbnail tk p (model_index (int r') 0) (fi_url (rows ! row))
                       (mThumbnailSize v)))
    \<and> mGroupPix (modifiedThumbnail tk p idx url n) = fst (thumbnailForDocument p url (fromPixelSize tk n))
    \<and> mRealFullSize (modifiedThumbnail tk p idx url n) = snd (thumbnailForDocument p url (fromPixelSize tk n))
    \<and> \<not> mWaitingForThumbnail (modifiedThumbnail tk p idx url n)
    \<and> (modifiedProvider v (fi_url (fileItemForIndex v idx)) = Some q \<longrightarrow>
          updateThumbnail tk v idx
            = v\<lparr>mThumbnailForUrl := (mThumbnailForUrl v)(fi_url (fileItemForIndex v idx) \<mapsto>
                  modifiedThumbnail tk q idx (fi_url (fileItemForIndex v idx)) (mThumbnailSize v))\<rparr>)"
proof -
  let ?loop = "visibleItems_loop tk v (length rows)"
  note iv = inv_loop [OF assms(2), of "length rows" tk]
  from iv have l: "fst ?loop = map (\<lambda>r. rows ! r) (filter (rowNeedsThumbnail tk v rows) [0 ..< length rows])"
    by (simp add: visibleItems_inv_def)
  from assms(4) have mp: "modifiedProvider v (fi_url (rows ! row)) = Some p"
    by (simp add: rowIsModified_def)
  have a: "\<forall>item \<in> set (fst ?loop). fi_url item \<noteq> fi_url (rows ! row)"
    unfolding l using mp by (auto simp: rowNeedsThumbnail_def)
  note g = generate_visible [OF assms(1,2), of tk]
  have b: "jobItems (generateThumbnailsForVisibleItems tk v) = jobItems v @ fst ?loop"
    using loop_jobItems [OF assms(2), of tk]
    by (simp add: g generateThumbnailsForItems_jobItems)
  have c: "mThumbnailForUrl (generateThumbnailsForVisibleItems tk v) = mThumbnailForUrl (snd ?loop)"
    by (simp add: g generateThumbnailsForItems_cache)
  from iv assms(3,4)
  have d: "\<exists>r' < length rows. fi_url (rows ! r') = fi_url (rows ! row)
          \<and> mThumbnailForUrl (snd ?loop) (fi_url (rows ! row))
              = Some (modifiedThumbnail tk p (model_index (int r') 0) (fi_url (rows ! row))
                       (mThumbnailSize v))"
    unfolding visibleItems_inv_def by blast
  have e: "mGroupPix (modifiedThumbnail tk p idx url n) = fst (thumbnailForDocument p url (fromPixelSize tk n))
    \<and> mRealFullSize (modifiedThumbnail tk p idx url n) = snd (thumbnailForDocument p url (fromPixelSize tk n))
    \<and> \<not> mWaitingForThumbnail (modifiedThumbnail tk p idx url n)"
    by (simp add: modifiedThumbnail_def split: prod.splits)
  have f: "modifiedProvider v (fi_url (fileItemForIndex v idx)) = Some q \<longrightarrow>
          updateThumbnail tk v idx
            = v\<lparr>mThumbnailForUrl := (mThumbnailForUrl v)(fi_url (fileItemForIndex v idx) \<mapsto>
                  modifiedThumbnail tk q idx (fi_url (fileItemForIndex v idx)) (mThumbnailSize v))\<rparr>"
    by (simp add: updateThumbnail_def update_modified Let_def)
  from a b d e f show ?thesis unfolding c by blast
qed

theorem modified_items_updated_witness:
  "view_isVisible ex_view_modified \<and> view_model ex_view_modified = Some [ex_item]
   \<and> rowIsModified ex_toolkit ex_view_modified [ex_item] 0 ex_provider
   \<and> jobItems (generateThumbnailsForVisibleItems ex_toolkit ex_view_modified) = []
   \<and> mThumbnailForUrl (generateThumbnailsForVisibleItems ex_toolkit ex_view_modified) (fi_url ex_item)
       = Some (modifiedThumbnail ex_toolkit ex_provider (model_index 0 0) (fi_url ex_item) 128)
   \<and> mGroupPix (modifiedThumbnail ex_toolkit ex_provider (model_index 0 0) (fi_url ex_item) 128)
       = Pixmap 128 96 9"
proof -
  have a: "view_isVisible ex_view_modified" by (simp add: ex_view_modified_def ex_view_def)
  have b: "view_model ex_view_modified = Some [ex_item]" by (simp add: ex_view_modified_def ex_view_def)
  have m: "rowIsModified ex_toolkit ex_view_modified [ex_item] 0 ex_provider"
    by (simp add: ex_eval ex_view_modified_def ex_view_def ex_provider_def ex_item_def)
  have l: "fst (visibleItems_loop ex_toolkit ex_view_modified (length [ex_item])) = []"
    by (simp add: ex_eval ex_view_modified_def ex_view_def ex_provider_def ex_item_def split: prod.splits)
  have j: "jobItems ex_view_modified = []" by (simp add: jobItems_def ex_view_modified_def ex_view_def)
  have s: "mThumbnailSize ex_view_modified = 128" by (simp add: ex_view_modified_def ex_view_def)
  have p: "thumbnailForDocument ex_provider (fi_url ex_item) (fromPixelSize ex_toolkit 128)
     = (Pixmap 128 96 9, \<lparr>sz_width = 1024, sz_height = 768\<rparr>)"
    by (simp add: ex_provider_def)
  have r: "(0::nat) < length [ex_item]" by simp
  note t = modified_items_updated [OF a b r m,
      where idx = "model_index 0 0" and url = "fi_url ex_item" and n = 128 and q = ex_provider]
  from t [THEN conjunct2, THEN conjunct1]
  have q: "jobItems (generateThumbnailsForVisibleItems ex_toolkit ex_view_modified) = []"
    unfolding l j by simp
  from t [THEN conjunct2, THEN conjunct2, THEN conjunct1]
  have c: "mThumbnailForUrl (generateThumbnailsForVisibleItems ex_toolkit ex_view_modified) (fi_url ex_item)
       = Some (modifiedThumbnail ex_toolkit ex_provider (model_index 0 0) (fi_url ex_item) 128)"
    unfolding s by simp
  from t [THEN conjunct2, THEN conjunct2, THEN conjunct2, THEN conjunct1]
  have g: "mGroupPix (modifiedThumbnail ex_toolkit ex_provider (model_index 0 0) (fi_url ex_item) 128)
       = Pixmap 128 96 9"
    unfolding p by simp
  from a b m q c g show ?thesis by blast
qed

text \<open>An archive is filtered out before the provider is asked: a visible archive that
  the provider reports modified is left as it is, with no cache entry.\<close>

theorem modified_archive_not_updated:
  "view_isVisible ex_view_archive \<and> view_model ex_view_archive = Some [ex_archive]
   \<and> rowIsShown ex_toolkit ex_view_archive 0
   \<and> modifiedProvider ex_view_archive (fi_url ex_archive) = Some ex_provider
   \<and> mThumbnailForUrl ex_view_archive (fi_url ex_archive) = None
   \<and> generateThumbnailsForVisibleItems ex_toolkit ex_view_archive = ex_view_archive"
proof -
  have a: "view_isVisible ex_view_archive \<and> view_model ex_view_archive = Some [ex_archive]
      \<and> mThumbnailForUrl ex_view_archive (fi_url ex_archive) = None"
    by (simp add: ex_view_archive_def ex_view_def)
  have s: "rowIsShown ex_toolkit ex_view_archive 0"
    by (simp add: ex_eval ex_view_archive_def ex_view_def)
  have m: "modifiedProvider ex_view_archive (fi_url ex_archive) = Some ex_provider"
    by (simp add: modifiedProvider_def ex_view_archive_def ex_provider_def)
  have l: "visibleItems_loop ex_toolkit ex_view_archive (length [ex_archive]) = ([], ex_view_archive)"
    by (simp add: visibleItems_loop_def visibleItems_row_def fileItemForIndex_def model_index_def
          createIndex_def isValid_def Let_def a) (simp add: ex_archive_def)
  have g: "generateThumbnailsForVisibleItems ex_toolkit ex_view_archive = ex_view_archive"
    using l by (simp add: generateThumbnailsForVisibleItems_def a)
  from a s m g show ?thesis by simp
qed

subsection \<open>The busy state\<close>

lemma busy_step_set:
  "mBusyIndexSet (updateThumbnailBusyState v i b) = (if b then insert i (mBusyIndexSet v) else mBusyIndexSet v - {i})"
  by (auto simp: updateThumbnailBusyState_def Let_def)

lemma busy_step_consistent:
  "busyAnimationConsistent v \<Longrightarrow> busyAnimationConsistent (updateThumbnailBusyState v i b)"
  by (auto simp: updateThumbnailBusyState_def busyAnimationConsistent_def Let_def)

lemma busy_events_snoc:
  "busyStateEvents v (evs @ [(i, b)]) = updateThumbnailBusyState (busyStateEvents v evs) i b"
  by (simp add: busyStateEvents_def)

lemma busy_events_consistent:
  "busyAnimationConsistent v \<Longrightarrow> busyAnimationConsistent (busyStateEvents v evs)"
proof (induction evs rule: rev_induct)
  case Nil
  then show ?case by (simp add: busyStateEvents_def)
next
  case (snoc e evs)
  obtain i b where e: "e = (i, b)" by (cases e)
  from snoc show ?case
    unfolding e busy_events_snoc by (simp add: busy_step_consistent)
qed

lemma busy_events_set:
  "(j \<in> mBusyIndexSet (busyStateEvents v evs))
     = (case lastReportedBusy evs j of None \<Rightarrow> j \<in> mBusyIndexSet v | Some b \<Rightarrow> b)"
proof (induction evs rule: rev_induct)
  case Nil
  show ?case by (simp add: busyStateEvents_def lastReportedBusy_def)
next
  case (snoc e evs)
  obtain i b where e: "e = (i, b)" by (cases e)
  show ?case
  proof (cases "i = j")
    case True
    then show ?thesis
      unfolding e busy_events_snoc by (simp add: busy_step_set lastReportedBusy_def)
  next
    case False
    with snoc show ?thesis
      unfolding e busy_events_snoc by (simp add: busy_step_set lastReportedBusy_def)
  qed
qed

text \<open>C4: after any run of \<open>updateThumbnailBusyState\<close>, an index is in
  \<open>mBusyIndexSet\<close> exactly when its last report was busy (or, with no report, when it
  was in the set before): a busy report adds the index, any other report removes it. The
  animation runs exactly when the set is not empty, from a view where that holds, as it
  does after construction: each call keeps it so, and the animation changes state exactly
  when the set changes between empty and not empty.\<close>

theorem busy_state_tracking:
  assumes "busyAnimationConsistent v"
  shows "(\<forall>j. (j \<in> mBusyIndexSet (busyStateEvents v evs))
            = (case lastReportedBusy evs j of None \<Rightarrow> j \<in> mBusyIndexSet v | Some b \<Rightarrow> b))
    \<and> busyAnimationConsistent (busyStateEvents v evs)
    \<and> mBusyIndexSet (updateThumbnailBusyState v i busy)
        = (if busy then insert i (mBusyIndexSet v) else mBusyIndexSet v - {i})
    \<and> ((mBusyAnimationTimeLine (updateThumbnailBusyState v i busy) = Running)
         = (mBusyIndexSet (updateThumbnailBusyState v i busy) \<noteq> {}))
    \<and> ((mBusyAnimationTimeLine (updateThumbnailBusyState v i busy) \<noteq> mBusyAnimationTimeLine v)
         = ((mBusyIndexSet v = {}) \<noteq> (mBusyIndexSet (updateThumbnailBusyState v i busy) = {})))"
proof -
  have step: "busyAnimationConsistent (updateThumbnailBusyState v i busy)"
    using assms by (rule busy_step_consistent)
  have change: "(mBusyAnimationTimeLine (updateThumbnailBusyState v i busy) \<noteq> mBusyAnimationTimeLine v)
         = ((mBusyIndexSet v = {}) \<noteq> (mBusyIndexSet (updateThumbnailBusyState v i busy) = {}))"
    using assms by (auto simp: updateThumbnailBusyState_def busyAnimationConsistent_def Let_def)
  show ?thesis
    using busy_events_set [of _ v evs] busy_events_consistent [OF assms, of evs]
      busy_step_set [of v i busy] step change
    by (simp add: busyAnimationConsistent_def)
qed

theorem busy_state_tracking_witness:
  "busyAnimationConsistent ex_view
   \<and> model_index 0 0 \<notin> mBusyIndexSet (busyStateEvents ex_view
        [(model_index 0 0, True), (model_index 1 0, True), (model_index 0 0, False)])
   \<and> model_index 1 0 \<in> mBusyIndexSet (busyStateEvents ex_view
        [(model_index 0 0, True), (model_index 1 0, True), (model_index 0 0, False)])
   \<and> mBusyAnimationTimeLine (busyStateEvents ex_view
        [(model_index 0 0, True), (model_index 1 0, True), (model_index 0 0, False)]) = Running
   \<and> mBusyAnimationTimeLine (busyStateEvents ex_view
        [(model_index 0 0, True), (model_index 0 0, False)]) = NotRunning"
proof -
  have c: "busyAnimationConsistent ex_view"
    by (simp add: busyAnimationConsistent_def ex_view_def)
  have neq: "model_index 0 0 \<noteq> model_index 1 0"
    by (simp add: model_index_def createIndex_def)
  show ?thesis
    using c neq
      busy_state_tracking [OF c, of "[(model_index 0 0, True), (model_index 1 0, True), (model_index 0 0, False)]"]
      busy_state_tracking [OF c, of "[(model_index 0 0, True), (model_index 0 0, False)]"]
    apply (simp add: lastReportedBusy_def busyAnimationConsistent_def)
    apply (auto simp: busyStateEvents_def updateThumbnailBusyState_def ex_view_def Let_def)
    done
qed

section \<open>Properties of the tag model\<close>

declare slotTagAdded_loop.simps [simp del]

lemma foldl_appendRow:
  "foldl (\<lambda>rows tag. appendRow rows (f tag)) acc tags = acc @ map f tags"
  by (induction tags arbitrary: acc) (simp_all add: appendRow_def)

lemma refresh_sorted: "sorted (map fst (TagModel_refresh backEnd))"
  by (simp add: TagModel_refresh_def)

lemma refresh_set:
  "set (TagModel_refresh backEnd) = (\<lambda>t. (labelForTag backEnd t, t)) ` set (allTags backEnd)"
  by (simp add: TagModel_refresh_def foldl_appendRow)

lemma loop_bounds:
  "row \<le> length rows \<Longrightarrow>
     row \<le> slotTagAdded_loop rows label row \<and> slotTagAdded_loop rows label row \<le> length rows"
proof (induction rows label row rule: slotTagAdded_loop.induct)
  case (1 rows label row)
  show ?case
  proof (cases "row < length rows \<and> \<not> QString_compare (fst (rows ! row)) label > 0")
    case True
    with 1 have "Suc row \<le> slotTagAdded_loop rows label (Suc row)
        \<and> slotTagAdded_loop rows label (Suc row) \<le> length rows" by simp
    with True show ?thesis by (subst (1 2) slotTagAdded_loop.simps) simp
  next
    case False
    with "1.prems" show ?thesis by (subst (1 2) slotTagAdded_loop.simps) auto
  qed
qed

lemma loop_before:
  "row \<le> i \<Longrightarrow> i < slotTagAdded_loop rows label row \<Longrightarrow> fst (rows ! i) \<le> label"
proof (induction rows label row rule: slotTagAdded_loop.induct)
  case (1 rows label row)
  from "1.prems" have run: "row < length rows \<and> \<not> QString_compare (fst (rows ! row)) label > 0"
    by (subst (asm) (1) slotTagAdded_loop.simps) (auto split: if_splits)
  then have unfold: "slotTagAdded_loop rows label row = slotTagAdded_loop rows label (Suc row)"
    by (subst slotTagAdded_loop.simps) simp
  show ?case
  proof (cases "i = row")
    case True
    with run show ?thesis by (auto simp: QString_compare_def split: if_splits)
  next
    case False
    with "1.prems" unfold run "1.IH" show ?thesis by simp
  qed
qed

lemma loop_at:
  "slotTagAdded_loop rows label row < length rows \<Longrightarrow>
     label < fst (rows ! slotTagAdded_loop rows label row)"
proof (induction rows label row rule: slotTagAdded_loop.induct)
  case (1 rows label row)
  show ?case
  proof (cases "row < length rows")
    case True
    show ?thesis
    proof (cases "QString_compare (fst (rows ! row)) label > 0")
      case gt: True
      with True have "slotTagAdded_loop rows label row = row"
        by (subst slotTagAdded_loop.simps) simp
      with gt show ?thesis by (auto simp: QString_compare_def split: if_splits)
    next
      case le: False
      with True have eq: "slotTagAdded_loop rows label row = slotTagAdded_loop rows label (Suc row)"
        by (subst slotTagAdded_loop.simps) simp
      with "1.IH" True le "1.prems" show ?thesis by simp
    qed
  next
    case False
    then have "slotTagAdded_loop rows label row = row"
      by (subst slotTagAdded_loop.simps) simp
    with False "1.prems" show ?thesis by simp
  qed
qed

lemma slotTagAdded_sorted:
  assumes "sorted (map fst rows)"
  shows "sorted (map fst (slotTagAdded rows tag label))"
proof -
  define r where "r = slotTagAdded_loop rows label 0"
  have r_le: "r \<le> length rows" using loop_bounds [of 0 rows label] by (simp add: r_def)
  have before: "\<forall>x \<in> set (take r rows). fst x \<le> label"
  proof
    fix x assume "x \<in> set (take r rows)"
    then obtain i where "i < r" "i < length rows" "x = rows ! i"
      by (auto simp: in_set_conv_nth)
    then show "fst x \<le> label" using loop_before [of 0 i rows label] by (simp add: r_def)
  qed
  have after: "\<forall>x \<in> set (drop r rows). label \<le> fst x"
  proof
    fix x assume "x \<in> set (drop r rows)"
    then obtain k where k: "k < length rows - r" "x = rows ! (r + k)"
      by (auto simp: in_set_conv_nth)
    then have lt: "r < length rows" by simp
    then have "label < fst (rows ! r)" using loop_at [of rows label 0] by (simp add: r_def)
    moreover have "fst (rows ! r) \<le> fst (rows ! (r + k))"
      using assms k lt sorted_nth_mono [of "map fst rows" r "r + k"] by simp
    ultimately show "label \<le> fst x" using k by simp
  qed
  have split: "map fst rows = map fst (take r rows) @ map fst (drop r rows)"
    by (simp flip: map_append)
  from assms have s: "sorted (map fst (take r rows) @ map fst (drop r rows))"
    using split by simp
  show ?thesis
    using s before after
    by (auto simp: slotTagAdded_def insertRow_def r_def [symmetric] sorted_append)
qed

lemma slotTagAdded_set:
  "set (slotTagAdded rows tag label) = insert (label, tag) (set rows)"
proof -
  have "set (take (slotTagAdded_loop rows label 0) rows) \<union> set (drop (slotTagAdded_loop rows label 0) rows) = set rows"
    by (simp flip: set_append)
  then show ?thesis by (auto simp: slotTagAdded_def insertRow_def)
qed

lemma tagAddedEvents_sorted:
  "sorted (map fst rows) \<Longrightarrow> sorted (map fst (tagAddedEvents rows evs))"
proof (induction evs arbitrary: rows)
  case Nil
  then show ?case by (simp add: tagAddedEvents_def)
next
  case (Cons e evs)
  obtain tag label where e: "e = (tag, label)" by (cases e)
  have "tagAddedEvents rows (e # evs) = tagAddedEvents (slotTagAdded rows tag label) evs"
    by (simp add: tagAddedEvents_def e)
  with Cons show ?case by (simp add: slotTagAdded_sorted)
qed

text \<open>C7: the rows of a refreshed model are the back end's tags with their labels,
  sorted by label; \<open>slotTagAdded\<close> inserts the new row before the first row whose
  label compares greater than the new label (at the end when there is none), which keeps
  sorted rows sorted; so the rows stay sorted over every run of \<open>tagAdded\<close> events
  from a refreshed model.\<close>

theorem tagmodel_rows_sorted:
  "sorted (map fst (TagModel_refresh backEnd))
   \<and> set (TagModel_refresh backEnd) = (\<lambda>t. (labelForTag backEnd t, t)) ` set (allTags backEnd)
   \<and> sorted (map fst (tagAddedEvents (TagModel_refresh backEnd) evs))
   \<and> (sorted (map fst rows) \<longrightarrow>
        sorted (map fst (slotTagAdded rows tag label))
        \<and> set (slotTagAdded rows tag label) = insert (label, tag) (set rows)
        \<and> slotTagAdded rows tag label
            = insertRow rows (slotTagAdded_loop rows label 0) (label, tag)
        \<and> slotTagAdded_loop rows label 0 \<le> length rows
        \<and> (\<forall>i < slotTagAdded_loop rows label 0. QString_compare (fst (rows ! i)) label \<le> 0)
        \<and> (slotTagAdded_loop rows label 0 < length rows \<longrightarrow>
             QString_compare (fst (rows ! slotTagAdded_loop rows label 0)) label > 0))"
proof -
  have a: "\<forall>i < slotTagAdded_loop rows label 0. QString_compare (fst (rows ! i)) label \<le> 0"
  proof (intro allI impI)
    fix i assume "i < slotTagAdded_loop rows label 0"
    then have "fst (rows ! i) \<le> label" using loop_before [of 0 i rows label] by simp
    then show "QString_compare (fst (rows ! i)) label \<le> 0"
      by (auto simp: QString_compare_def)
  qed
  have b: "slotTagAdded_loop rows label 0 < length rows \<longrightarrow>
             QString_compare (fst (rows ! slotTagAdded_loop rows label 0)) label > 0"
    using loop_at [of rows label 0] by (auto simp: QString_compare_def)
  show ?thesis
    using a b loop_bounds [of 0 rows label] refresh_sorted refresh_set
      tagAddedEvents_sorted [OF refresh_sorted] slotTagAdded_sorted slotTagAdded_set
    by (simp add: slotTagAdded_def)
qed

theorem tagmodel_rows_sorted_witness:
  "sorted (map fst (TagModel_refresh ex_backEnd))
   \<and> TagModel_refresh ex_backEnd = [(''city'', ''t2''), (''sea'', ''t1''), (''trees'', ''t3'')]
   \<and> slotTagAdded (TagModel_refresh ex_backEnd) ''t4'' ''dog''
       = [(''city'', ''t2''), (''dog'', ''t4''), (''sea'', ''t1''), (''trees'', ''t3'')]
   \<and> sorted (map fst (slotTagAdded (TagModel_refresh ex_backEnd) ''t4'' ''dog''))"
proof -
  have r: "TagModel_refresh ex_backEnd = [(''city'', ''t2''), (''sea'', ''t1''), (''trees'', ''t3'')]"
    by (simp add: TagModel_refresh_def ex_backEnd_def appendRow_def less_eq_char_def less_char_def)
  have l: "slotTagAdded_loop [(''city'', ''t2''), (''sea'', ''t1''), (''trees'', ''t3'')] ''dog'' 0 = 1"
    by (simp add: slotTagAdded_loop.simps QString_compare_def less_eq_char_def less_char_def)
  have s: "sorted (map fst (TagModel_refresh ex_backEnd))"
    using tagmodel_rows_sorted [of ex_backEnd "[]" "[]" "[]" "[]"] by simp
  show ?thesis
    using s r l tagmodel_rows_sorted [of ex_backEnd "[]" "TagModel_refresh ex_backEnd" "''t4''" "''dog''"]
    by (simp add: slotTagAdded_def insertRow_def)
qed

section \<open>Properties of the image meta info model\<close>

text \<open>C8: with an invalid parent, \<open>index(g, 0)\<close> for a group row \<open>0 \<le> g\<close> below
  the number of groups is valid, its parent is invalid and its row count is the size of
  the group; for an entry row \<open>0 \<le> r\<close> below the size of group \<open>g\<close> and a column 0
  or 1, the parent of \<open>index(r, c, index(g, 0))\<close> is \<open>index(g, 0)\<close> and its row count
  is 0; a row out of range (negative, or not below the count), a group column above 0 or
  an entry column above 1 gives an invalid index.\<close>

theorem metainfo_two_level_tree:
  assumes "\<not> isValid root"
  shows
  "(0 \<le> g \<and> g < int (length m) \<longrightarrow>
      ImageMetaInfoModel_index m g 0 root = Some (createIndex g 0 NoGroup)
      \<and> isValid (createIndex g 0 NoGroup)
      \<and> \<not> isValid (ImageMetaInfoModel_parent m (createIndex g 0 NoGroup))
      \<and> ImageMetaInfoModel_rowCount m (createIndex g 0 NoGroup) = Some (group_size (m ! nat g))
      \<and> (0 \<le> r \<and> r < group_size (m ! nat g) \<and> (c = 0 \<or> c = 1) \<longrightarrow>
            ImageMetaInfoModel_index m r c (createIndex g 0 NoGroup) = Some (createIndex r c g)
            \<and> isValid (createIndex r c g)
            \<and> ImageMetaInfoModel_parent m (createIndex r c g) = createIndex g 0 NoGroup
            \<and> ImageMetaInfoModel_rowCount m (createIndex r c g) = Some 0)
      \<and> (r < 0 \<or> r \<ge> group_size (m ! nat g) \<or> c > 1 \<longrightarrow>
            (\<exists>i. ImageMetaInfoModel_index m r c (createIndex g 0 NoGroup) = Some i \<and> \<not> isValid i)))
   \<and> (g < 0 \<or> g \<ge> int (length m) \<or> c > 0 \<longrightarrow>
        (\<exists>i. ImageMetaInfoModel_index m g c root = Some i \<and> \<not> isValid i))
   \<and> ImageMetaInfoModel_rowCount m root = Some (int (length m))"
proof -
  have inv: "\<not> isValid QModelIndex_invalid"
    by (simp add: isValid_def QModelIndex_invalid_def)
  have grp: "0 \<le> g \<Longrightarrow> isValid (createIndex g 0 NoGroup)"
    by (simp add: isValid_def createIndex_def)
  have a: "0 \<le> g \<and> g < int (length m) \<longrightarrow>
      ImageMetaInfoModel_index m g 0 root = Some (createIndex g 0 NoGroup)
      \<and> isValid (createIndex g 0 NoGroup)
      \<and> \<not> isValid (ImageMetaInfoModel_parent m (createIndex g 0 NoGroup))
      \<and> ImageMetaInfoModel_rowCount m (createIndex g 0 NoGroup) = Some (group_size (m ! nat g))"
    using assms inv
    by (simp add: ImageMetaInfoModel_index_def ImageMetaInfoModel_parent_def
          ImageMetaInfoModel_rowCount_def vector_at_def isValid_def createIndex_def)
  have b: "0 \<le> g \<and> g < int (length m) \<longrightarrow>
      (0 \<le> r \<and> r < group_size (m ! nat g) \<and> (c = 0 \<or> c = 1) \<longrightarrow>
            ImageMetaInfoModel_index m r c (createIndex g 0 NoGroup) = Some (createIndex r c g)
            \<and> isValid (createIndex r c g)
            \<and> ImageMetaInfoModel_parent m (createIndex r c g) = createIndex g 0 NoGroup
            \<and> ImageMetaInfoModel_rowCount m (createIndex r c g) = Some 0)"
    by (auto simp: ImageMetaInfoModel_index_def ImageMetaInfoModel_parent_def
          ImageMetaInfoModel_rowCount_def vector_at_def isValid_def createIndex_def NoGroup_def)
  have c: "0 \<le> g \<and> g < int (length m) \<longrightarrow>
      (r < 0 \<or> r \<ge> group_size (m ! nat g) \<or> c > 1 \<longrightarrow>
            (\<exists>i. ImageMetaInfoModel_index m r c (createIndex g 0 NoGroup) = Some i \<and> \<not> isValid i))"
    using inv
    by (auto simp: ImageMetaInfoModel_index_def vector_at_def isValid_def createIndex_def)
  have d: "g < 0 \<or> g \<ge> int (length m) \<or> c > 0 \<longrightarrow>
        (\<exists>i. ImageMetaInfoModel_index m g c root = Some i \<and> \<not> isValid i)"
    using assms inv
    by (auto simp: ImageMetaInfoModel_index_def isValid_def createIndex_def)
  have e: "ImageMetaInfoModel_rowCount m root = Some (int (length m))"
    using assms by (simp add: ImageMetaInfoModel_rowCount_def)
  from a b c d e show ?thesis by blast
qed

theorem metainfo_two_level_tree_witness:
  "\<not> isValid QModelIndex_invalid
   \<and> ImageMetaInfoModel_index ex_metaInfo 1 0 QModelIndex_invalid = Some (createIndex 1 0 NoGroup)
   \<and> ImageMetaInfoModel_index ex_metaInfo 0 1 (createIndex 1 0 NoGroup) = Some (createIndex 0 1 1)
   \<and> ImageMetaInfoModel_parent ex_metaInfo (createIndex 0 1 1) = createIndex 1 0 NoGroup
   \<and> ImageMetaInfoModel_rowCount ex_metaInfo (createIndex 0 1 1) = Some 0
   \<and> ImageMetaInfoModel_index ex_metaInfo 3 0 QModelIndex_invalid = Some QModelIndex_invalid
   \<and> ImageMetaInfoModel_index ex_metaInfo 1 0 (createIndex 1 0 NoGroup) = Some QModelIndex_invalid"
proof -
  have root: "\<not> isValid QModelIndex_invalid"
    by (simp add: isValid_def QModelIndex_invalid_def)
  have len: "(0::int) \<le> 1 \<and> 1 < int (length ex_metaInfo)"
    by (simp add: ex_metaInfo_def)
  have sz: "(0::int) \<le> 0 \<and> 0 < group_size (ex_metaInfo ! nat 1) \<and> ((1::int) = 0 \<or> (1::int) = 1)"
    by (simp add: ex_metaInfo_def group_size_def)
  have out: "ImageMetaInfoModel_index ex_metaInfo 3 0 QModelIndex_invalid = Some QModelIndex_invalid
     \<and> ImageMetaInfoModel_index ex_metaInfo 1 0 (createIndex 1 0 NoGroup) = Some QModelIndex_invalid"
    by (simp add: ImageMetaInfoModel_index_def ex_metaInfo_def isValid_def QModelIndex_invalid_def
          createIndex_def vector_at_def group_size_def)
  from metainfo_two_level_tree [OF root, of 1 ex_metaInfo 0 1] len sz root out
  show ?thesis by blast
qed

end
